theory Spec2Isabelle
  imports Complex_Main
begin

section \<open>Errors as values\<close>

text \<open>
  The exceptions the Python source and the tensor library can raise. A computation that may
  raise returns \<open>error + 'a\<close>, with \<open>Inl\<close> the exception; \<open>ebind\<close> sequences two
  statements and stops at the first exception.
\<close>

datatype error =
    AssertionError | ZeroDivisionError | TypeError | ValueError
  | AttributeError | IndexError | RuntimeError

type_synonym 'a result = "error + 'a"

definition ebind :: "'a result \<Rightarrow> ('a \<Rightarrow> 'b result) \<Rightarrow> 'b result" where
  "ebind m f = (case m of Inl e \<Rightarrow> Inl e | Inr v \<Rightarrow> f v)"

section \<open>Tensors\<close>

text \<open>
  A tensor is its shape and its elements in row-major (logical) order. Elements are real
  numbers: the model idealises floating-point arithmetic. \<open>tab s f\<close> builds the tensor of
  shape \<open>s\<close> whose element at flat position \<open>k\<close> is \<open>f k\<close>.
\<close>

record tensor =
  shape :: "nat list"
  data :: "real list"

definition numel :: "tensor \<Rightarrow> nat" where
  "numel t = prod_list (shape t)"

definition wf_tensor :: "tensor \<Rightarrow> bool" where
  "wf_tensor t = (length (data t) = prod_list (shape t))"

definition tab :: "nat list \<Rightarrow> (nat \<Rightarrow> real) \<Rightarrow> tensor" where
  "tab s f = \<lparr>shape = s, data = map f [0..<prod_list s]\<rparr>"

text \<open>Multi-indices of a flat position and back (row-major strides).\<close>

fun unravel :: "nat list \<Rightarrow> nat \<Rightarrow> nat list" where
  "unravel [] k = []"
| "unravel (d # ds) k = (k div prod_list ds) # unravel ds (k mod prod_list ds)"

fun ravel :: "nat list \<Rightarrow> nat list \<Rightarrow> nat" where
  "ravel (d # ds) (i # is) = i * prod_list ds + ravel ds is"
| "ravel _ _ = 0"

fun index_of :: "nat \<Rightarrow> nat list \<Rightarrow> nat" where
  "index_of j [] = 0"
| "index_of j (x # xs) = (if x = j then 0 else Suc (index_of j xs))"

text \<open>Python's dimension arguments: a negative dimension counts from the end.\<close>

definition norm_dim :: "nat \<Rightarrow> int \<Rightarrow> nat result" where
  "norm_dim r d =
     (let j = (if d < 0 then int r + d else d)
      in if 0 \<le> j \<and> j < int r then Inr (nat j) else Inl IndexError)"

text \<open>\<open>t.reshape(s)\<close>: the same elements in the same logical order under a new shape.\<close>

definition reshape :: "tensor \<Rightarrow> nat list \<Rightarrow> tensor result" where
  "reshape t s = (if prod_list s = numel t then Inr (t\<lparr>shape := s\<rparr>) else Inl RuntimeError)"

text \<open>\<open>t.permute(p)\<close>: output axis \<open>a\<close> is input axis \<open>p ! a\<close>.\<close>

definition permute :: "tensor \<Rightarrow> nat list \<Rightarrow> tensor result" where
  "permute t p =
     (let r = length (shape t) in
      if sort p = [0..<r] then
        (let s' = map (\<lambda>a. shape t ! a) p in
         Inr (tab s' (\<lambda>k. data t !
                ravel (shape t) (map (\<lambda>j. unravel s' k ! index_of j p) [0..<r]))))
      else Inl RuntimeError)"

definition transpose_dims :: "tensor \<Rightarrow> int \<Rightarrow> int \<Rightarrow> tensor result" where
  "transpose_dims t d0 d1 =
     (let r = length (shape t) in
      ebind (norm_dim r d0) (\<lambda>a.
      ebind (norm_dim r d1) (\<lambda>b.
      permute t ([0..<r][a := b, b := a]))))"

text \<open>\<open>t.unbind(0)\<close>: the slices along the first axis.\<close>

definition unbind0 :: "tensor \<Rightarrow> tensor list result" where
  "unbind0 t =
     (case shape t of
        [] \<Rightarrow> Inl RuntimeError
      | d # ds \<Rightarrow> Inr (map (\<lambda>j. tab ds (\<lambda>k. data t ! (j * prod_list ds + k))) [0..<d]))"

text \<open>
  \<open>a @ b\<close> for operands with the same leading (batch) dimensions, which is how the
  source uses it; broadcasting of batch dimensions is not modelled and reported as a
  shape error.
\<close>

definition matmul :: "tensor \<Rightarrow> tensor \<Rightarrow> tensor result" where
  "matmul a b =
     (let ra = length (shape a); rb = length (shape b) in
      if 2 \<le> ra \<and> ra = rb \<and> take (ra - 2) (shape a) = take (rb - 2) (shape b)
         \<and> shape a ! (ra - 1) = shape b ! (rb - 2)
      then
        (let n = shape a ! (ra - 2); m = shape a ! (ra - 1); p = shape b ! (rb - 1) in
         Inr (tab (take (ra - 2) (shape a) @ [n, p])
           (\<lambda>k. let bt = k div (n * p); i = (k div p) mod n; j = k mod p in
                 (\<Sum>l\<leftarrow>[0..<m]. data a ! (bt * (n * m) + i * m + l)
                                * data b ! (bt * (m * p) + l * p + j)))))
      else Inl RuntimeError)"

definition mul_scalar :: "tensor \<Rightarrow> real \<Rightarrow> tensor" where
  "mul_scalar t c = tab (shape t) (\<lambda>k. data t ! k * c)"

definition add_scalar :: "tensor \<Rightarrow> real \<Rightarrow> tensor" where
  "add_scalar t c = tab (shape t) (\<lambda>k. data t ! k + c)"

text \<open>\<open>t.softmax(dim=-1)\<close>: each row along the last axis is normalised.\<close>

definition softmax_last :: "tensor \<Rightarrow> tensor" where
  "softmax_last t =
     (let n = (if shape t = [] then 1 else last (shape t)) in
      tab (shape t) (\<lambda>k. exp (data t ! k) /
                          (\<Sum>j\<leftarrow>[0..<n]. exp (data t ! ((k div n) * n + j)))))"

text \<open>Elementwise binary operations with right-aligned broadcasting.\<close>

definition broadcast_shapes :: "nat list \<Rightarrow> nat list \<Rightarrow> nat list option" where
  "broadcast_shapes s1 s2 =
     (let r = max (length s1) (length s2);
          p1 = replicate (r - length s1) 1 @ s1;
          p2 = replicate (r - length s2) 1 @ s2
      in if list_all2 (\<lambda>a b. a = b \<or> a = 1 \<or> b = 1) p1 p2
         then Some (map2 (\<lambda>a b. if a = 1 then b else a) p1 p2) else None)"

definition bcast_index :: "nat list \<Rightarrow> nat list \<Rightarrow> nat \<Rightarrow> nat" where
  "bcast_index s out k =
     ravel s (map2 (\<lambda>d i. if d = 1 then 0 else i) s
                (drop (length out - length s) (unravel out k)))"

definition binop :: "(real \<Rightarrow> real \<Rightarrow> real) \<Rightarrow> tensor \<Rightarrow> tensor \<Rightarrow> tensor result" where
  "binop f a b =
     (case broadcast_shapes (shape a) (shape b) of
        None \<Rightarrow> Inl RuntimeError
      | Some s \<Rightarrow>
          Inr (tab s (\<lambda>k. f (data a ! bcast_index (shape a) s k)
                            (data b ! bcast_index (shape b) s k))))"

definition tensor_add :: "tensor \<Rightarrow> tensor \<Rightarrow> tensor result" where
  "tensor_add a b = binop (+) a b"

definition tensor_sub :: "tensor \<Rightarrow> tensor \<Rightarrow> tensor result" where
  "tensor_sub a b = binop (-) a b"

text \<open>
  The right operand of \<open>(attn @ v) + res\<close>: a tensor in the layers after the first, the
  Python number \<open>0\<close> in the first.
\<close>

datatype operand = PyNum real | Tens tensor

definition add_operand :: "tensor \<Rightarrow> operand \<Rightarrow> tensor result" where
  "add_operand t r = (case r of PyNum c \<Rightarrow> Inr (add_scalar t c) | Tens u \<Rightarrow> tensor_add t u)"

section \<open>Library modules\<close>

text \<open>
  \<open>nn.Linear\<close>: weight of shape \<open>[out, in]\<close>, optional bias of shape \<open>[out]\<close>, applied
  to the last axis of the input.
\<close>

record Linear =
  lin_weight :: tensor
  lin_bias :: "tensor option"

definition linear :: "tensor \<Rightarrow> tensor \<Rightarrow> tensor option \<Rightarrow> tensor result" where
  "linear x w b =
     (case shape w of
        [out, inn] \<Rightarrow>
          if shape x \<noteq> [] \<and> last (shape x) = inn
             \<and> (case b of None \<Rightarrow> True | Some bt \<Rightarrow> shape bt = [out])
          then Inr (tab (butlast (shape x) @ [out])
            (\<lambda>k. (\<Sum>i\<leftarrow>[0..<inn]. data x ! ((k div out) * inn + i)
                                   * data w ! ((k mod out) * inn + i))
                 + (case b of None \<Rightarrow> 0 | Some bt \<Rightarrow> data bt ! (k mod out))))
          else Inl RuntimeError
      | _ \<Rightarrow> Inl RuntimeError)"

definition Linear_forward :: "Linear \<Rightarrow> tensor \<Rightarrow> tensor result" where
  "Linear_forward l x = linear x (lin_weight l) (lin_bias l)"

text \<open>
  \<open>nn.Dropout(p)\<close>. In training mode with \<open>p > 0\<close> an element is zeroed when its uniform
  sample \<open>u k\<close> falls below \<open>p\<close> and the others are scaled by \<open>1 / (1 - p)\<close>; otherwise
  the input is returned. The samples are an explicit argument.
\<close>

type_synonym noise = "nat \<Rightarrow> real"

definition dropout :: "real \<Rightarrow> bool \<Rightarrow> noise \<Rightarrow> tensor \<Rightarrow> tensor" where
  "dropout p training u x =
     (if \<not> training \<or> p = 0 then x
      else if p = 1 then tab (shape x) (\<lambda>k. 0)
      else tab (shape x) (\<lambda>k. if u k < p then 0 else data x ! k / (1 - p)))"

text \<open>
  \<open>nn.Conv1d\<close> with \<open>groups = 1\<close> and zero padding: weight of shape \<open>[O, I, K]\<close>, optional
  bias of shape \<open>[O]\<close>, and the one-element tuples stride, padding and dilation.
  \<open>conv1d\<close> is \<open>nn.functional.conv1d\<close> on an input of shape \<open>[B, I, L]\<close> (or \<open>[I, L]\<close>,
  unbatched).
\<close>

record Conv1d =
  conv_weight :: tensor
  conv_bias :: "tensor option"
  conv_stride :: nat
  conv_padding :: nat
  conv_dilation :: nat

definition conv1d_batched ::
  "tensor \<Rightarrow> tensor \<Rightarrow> tensor option \<Rightarrow> nat \<Rightarrow> nat \<Rightarrow> nat \<Rightarrow> tensor result" where
  "conv1d_batched x w b s p d =
     (case (shape x, shape w) of
        ([bn, ci, l], [co, wi, kk]) \<Rightarrow>
          if ci = wi \<and> 0 < s \<and> 0 < d \<and> 0 < kk \<and> d * (kk - 1) + 1 \<le> l + 2 * p
             \<and> (case b of None \<Rightarrow> True | Some bt \<Rightarrow> shape bt = [co])
          then
            (let lo = (l + 2 * p - d * (kk - 1) - 1) div s + 1 in
             Inr (tab [bn, co, lo]
               (\<lambda>k. let bi = k div (co * lo); oc = (k div lo) mod co; t = k mod lo in
                  (case b of None \<Rightarrow> 0 | Some bt \<Rightarrow> data bt ! oc)
                  + (\<Sum>i\<leftarrow>[0..<ci]. \<Sum>j\<leftarrow>[0..<kk].
                       data w ! ((oc * ci + i) * kk + j)
                       * (let q = t * s + j * d in
                          if p \<le> q \<and> q - p < l then data x ! ((bi * ci + i) * l + (q - p))
                          else 0)))))
          else Inl RuntimeError
      | _ \<Rightarrow> Inl RuntimeError)"

definition conv1d ::
  "tensor \<Rightarrow> tensor \<Rightarrow> tensor option \<Rightarrow> nat \<Rightarrow> nat \<Rightarrow> nat \<Rightarrow> tensor result" where
  "conv1d x w b s p d =
     (if length (shape x) = 2 then
        ebind (conv1d_batched (x\<lparr>shape := 1 # shape x\<rparr>) w b s p d)
          (\<lambda>y. Inr (y\<lparr>shape := tl (shape y)\<rparr>))
      else conv1d_batched x w b s p d)"

definition Conv1d_forward :: "Conv1d \<Rightarrow> tensor \<Rightarrow> tensor result" where
  "Conv1d_forward c x =
     conv1d x (conv_weight c) (conv_bias c) (conv_stride c) (conv_padding c) (conv_dilation c)"

text \<open>
  \<open>torch.flip(t, dims=[2])\<close>: the order along the third axis is reversed. For a shape
  \<open>d0 # d1 # d2 # rest\<close> the element at position \<open>j\<close> of axis 2 comes from position
  \<open>d2 - 1 - j\<close>.
\<close>

definition flip2 :: "tensor \<Rightarrow> tensor result" where
  "flip2 t =
     (case shape t of
        d0 # d1 # d2 # rest \<Rightarrow>
          (let r = prod_list rest in
           Inr (tab (shape t)
             (\<lambda>k. data t ! ((k div (d2 * r)) * (d2 * r)
                            + (d2 - 1 - (k div r) mod d2) * r + k mod r))))
      | _ \<Rightarrow> Inl IndexError)"

section \<open>Attention\<close>

text \<open>
  The module state of \<open>Attention\<close>: the fields \<open>__init__\<close> sets. \<open>layerth\<close> defaults to
  \<open>None\<close> in the source.
\<close>

record Attention =
  num_heads :: int
  scale :: real
  qkv :: Linear
  attn_drop :: real
  proj :: Linear
  proj_drop :: real
  alpha :: real
  layerth :: "int option"
  dim :: int
  g_conv :: Conv1d

text \<open>
  The initial values of the learned parameters are drawn at random by the library; the
  model takes them from \<open>init\<close>, by parameter name and flat position.
\<close>

type_synonym init = "string \<Rightarrow> nat \<Rightarrow> real"

definition new_Linear :: "init \<Rightarrow> string \<Rightarrow> int \<Rightarrow> int \<Rightarrow> bool \<Rightarrow> Linear result" where
  "new_Linear ini name inn out with_bias =
     (if inn < 0 \<or> out < 0 then Inl RuntimeError
      else Inr \<lparr>lin_weight = tab [nat out, nat inn] (ini (name @ ''.weight'')),
                lin_bias = (if with_bias then Some (tab [nat out] (ini (name @ ''.bias'')))
                            else None)\<rparr>)"

definition new_Dropout :: "real \<Rightarrow> real result" where
  "new_Dropout p = (if p < 0 \<or> 1 < p then Inl ValueError else Inr p)"

definition new_Conv1d :: "init \<Rightarrow> string \<Rightarrow> int \<Rightarrow> int \<Rightarrow> int \<Rightarrow> Conv1d result" where
  "new_Conv1d ini name inn out k =
     (if inn < 0 \<or> out < 0 \<or> k < 0 then Inl RuntimeError
      else Inr \<lparr>conv_weight = tab [nat out, nat inn, nat k] (ini (name @ ''.weight'')),
                conv_bias = Some (tab [nat out] (ini (name @ ''.bias''))),
                conv_stride = 1, conv_padding = 0, conv_dilation = 1\<rparr>)"

text \<open>
  \<open>Attention.__init__\<close>. Python's \<open>%\<close> and \<open>//\<close> on integers are \<open>mod\<close> and \<open>div\<close> on
  \<open>int\<close> (both round towards minus infinity) and raise on a zero divisor;
  \<open>head_dim ** -0.5\<close> raises on a zero base. For a negative \<open>head_dim\<close> Python returns a
  complex number there and no field of a successfully built module holds it, since one
  of the library constructors below then refuses a negative size.
\<close>

definition Attention_init ::
  "init \<Rightarrow> int \<Rightarrow> int \<Rightarrow> bool \<Rightarrow> real \<Rightarrow> real \<Rightarrow> int option \<Rightarrow> Attention result" where
  "Attention_init ini dm nh qkv_bias attn_drop_p proj_drop_p lth =
     (if nh = 0 then Inl ZeroDivisionError
      else if dm mod nh \<noteq> 0 then Inl AssertionError
      else
        (let head_dim = dm div nh in
         if head_dim = 0 then Inl ZeroDivisionError
         else
           ebind (new_Linear ini ''qkv'' dm (dm * 3) qkv_bias) (\<lambda>qkv_l.
           ebind (new_Dropout attn_drop_p) (\<lambda>ad.
           ebind (new_Linear ini ''proj'' dm dm True) (\<lambda>proj_l.
           ebind (new_Dropout proj_drop_p) (\<lambda>pd.
           ebind (new_Conv1d ini ''g_conv'' (dm div nh) (dm div nh) 1) (\<lambda>gc.
           Inr \<lparr>num_heads = nh, scale = real_of_int head_dim powr (- (1 / 2)),
                qkv = qkv_l, attn_drop = ad, proj = proj_l, proj_drop = pd,
                alpha = 6 / 10, layerth = lth, dim = dm, g_conv = gc\<rparr>)))))))"

text \<open>\<open>Attention.adjoint_conv\<close> (lines 75-78).\<close>

definition adjoint_conv :: "Conv1d \<Rightarrow> tensor \<Rightarrow> tensor result" where
  "adjoint_conv conv input =
     ebind (flip2 (conv_weight conv)) (\<lambda>reversed_weights.
     conv1d input reversed_weights (conv_bias conv)
       (conv_stride conv) (conv_padding conv) (conv_dilation conv))"

text \<open>
  For comparison only, the transpose application the specification names for the
  kernel-size-one case: the same convolution with the output and input channel axes of
  the weight exchanged. The source does not contain it.
\<close>

definition transpose_conv :: "Conv1d \<Rightarrow> tensor \<Rightarrow> tensor result" where
  "transpose_conv conv input =
     ebind (permute (conv_weight conv) [1, 0, 2]) (\<lambda>wt.
     conv1d input wt (conv_bias conv) (conv_stride conv) (conv_padding conv) (conv_dilation conv))"

text \<open>
  \<open>Attention.forward\<close>, in the order of the source. \<open>attention_weights\<close> is lines 42-49
  (it returns \<open>B\<close>, \<open>N\<close>, \<open>C\<close>, the attention weights and \<open>v\<close>), \<open>attention_res\<close> lines
  51-61, \<open>attention_pre_proj\<close> adds line 63, and \<open>Attention_forward\<close> is the whole method.
  A call returns a pair in the first layer and a single tensor otherwise.
\<close>

datatype attn_out = Pair tensor tensor | Single tensor

definition py_floordiv :: "int \<Rightarrow> int \<Rightarrow> int result" where
  "py_floordiv a b = (if b = 0 then Inl ZeroDivisionError else Inr (a div b))"

definition to_size :: "int \<Rightarrow> nat result" where
  "to_size n = (if n < 0 then Inl RuntimeError else Inr (nat n))"

definition attention_weights ::
  "Attention \<Rightarrow> bool \<Rightarrow> noise \<Rightarrow> tensor \<Rightarrow> (nat \<times> nat \<times> nat \<times> tensor \<times> tensor) result" where
  "attention_weights a training u_attn x =
     (case shape x of
        [B, N, C] \<Rightarrow>
          ebind (Linear_forward (qkv a) x) (\<lambda>y.
          ebind (py_floordiv (int C) (num_heads a)) (\<lambda>hd.
          ebind (to_size (num_heads a)) (\<lambda>H.
          ebind (to_size hd) (\<lambda>hdn.
          ebind (reshape y [B, N, 3, H, hdn]) (\<lambda>y1.
          ebind (permute y1 [2, 0, 3, 1, 4]) (\<lambda>qkv_t.
          ebind (unbind0 qkv_t) (\<lambda>parts.
          (case parts of
             [q, k, v] \<Rightarrow>
               ebind (transpose_dims k (- 2) (- 1)) (\<lambda>kt.
               ebind (matmul q kt) (\<lambda>qk.
               Inr (B, N, C, dropout (attn_drop a) training u_attn
                               (softmax_last (mul_scalar qk (scale a))), v)))
           | _ \<Rightarrow> Inl ValueError))))))))
      | _ \<Rightarrow> Inl ValueError)"

definition attention_res ::
  "Attention \<Rightarrow> nat \<Rightarrow> nat \<Rightarrow> nat \<Rightarrow> tensor \<Rightarrow> tensor option \<Rightarrow> operand result" where
  "attention_res a B N C v v0 =
     (case layerth a of
        None \<Rightarrow> Inl TypeError
      | Some l \<Rightarrow>
          if l > 0 then
            (case v0 of
               None \<Rightarrow> Inl AttributeError
             | Some v0t \<Rightarrow>
                 ebind (to_size (num_heads a)) (\<lambda>H.
                 ebind (py_floordiv (int C) (num_heads a)) (\<lambda>hd.
                 ebind (to_size hd) (\<lambda>hdn.
                 ebind (reshape v0t [B * H, N, hdn]) (\<lambda>v0_r.
                 ebind (permute v0_r [0, 2, 1]) (\<lambda>v0_reshape.
                 ebind (reshape v [B * H, N, hdn]) (\<lambda>v_r.
                 ebind (permute v_r [0, 2, 1]) (\<lambda>v_reshape.
                 ebind (Conv1d_forward (g_conv a) v_reshape) (\<lambda>gv.
                 ebind (tensor_sub v0_reshape gv) (\<lambda>diff.
                 ebind (adjoint_conv (g_conv a) diff) (\<lambda>adj.
                 ebind (permute (mul_scalar adj (alpha a)) [0, 2, 1]) (\<lambda>res1.
                 ebind (reshape res1 [B, H, N, hdn]) (\<lambda>res.
                 Inr (Tens res))))))))))))))
          else Inr (PyNum 0))"

definition attention_pre_proj ::
  "Attention \<Rightarrow> bool \<Rightarrow> noise \<Rightarrow> tensor \<Rightarrow> tensor option \<Rightarrow> (tensor \<times> tensor) result" where
  "attention_pre_proj a training u_attn x v0 =
     ebind (attention_weights a training u_attn x) (\<lambda>(B, N, C, attn, v).
     ebind (attention_res a B N C v v0) (\<lambda>res.
     ebind (matmul attn v) (\<lambda>av.
     ebind (add_operand av res) (\<lambda>x1. Inr (x1, v)))))"

definition Attention_forward ::
  "Attention \<Rightarrow> bool \<Rightarrow> noise \<Rightarrow> noise \<Rightarrow> tensor \<Rightarrow> tensor option \<Rightarrow> attn_out result" where
  "Attention_forward a training u_attn u_proj x v0 =
     ebind (attention_pre_proj a training u_attn x v0) (\<lambda>(x1, v).
     (case shape x of
        [B, N, C] \<Rightarrow>
          ebind (transpose_dims x1 1 2) (\<lambda>x2.
          ebind (reshape x2 [B, N, C]) (\<lambda>x3.
          ebind (Linear_forward (proj a) x3) (\<lambda>x4.
          (let x5 = dropout (proj_drop a) training u_proj x4 in
           if layerth a = Some 0 then Inr (Pair x5 v) else Inr (Single x5)))))
      | _ \<Rightarrow> Inl ValueError))"

text \<open>
  For comparison with \<open>attention_res\<close>, the correction term written out entry by entry
  from its description: with \<open>v0\<close> and \<open>v\<close> read as rows of \<open>head_dim\<close> channels (row
  \<open>t\<close> is one token of one head of one image), the entry of row \<open>t\<close> at channel \<open>d\<close> is
  \<open>0.6\<close> times the adjoint convolution, at channel \<open>d\<close>, of the row whose channel \<open>c\<close>
  is \<open>v0[t, c] - g_conv(v[t, :])[c]\<close>. \<open>conv_k1_at\<close> is a convolution of kernel size
  one at one position: the bias plus the weighted sum over the input channels. The
  kernel axis of \<open>g_conv\<close> has length one, so the reversed weight that the adjoint
  convolution reads has the entries of the weight itself, and both applications read
  \<open>conv_weight\<close>.
\<close>

definition conv_k1_at :: "Conv1d \<Rightarrow> nat \<Rightarrow> (nat \<Rightarrow> real) \<Rightarrow> nat \<Rightarrow> real" where
  "conv_k1_at g hdim f d =
     (case conv_bias g of None \<Rightarrow> 0 | Some bt \<Rightarrow> data bt ! d)
     + (\<Sum>c\<leftarrow>[0..<hdim]. data (conv_weight g) ! (d * hdim + c) * f c)"

definition spec_correction :: "Attention \<Rightarrow> nat \<Rightarrow> tensor \<Rightarrow> tensor \<Rightarrow> nat \<Rightarrow> real" where
  "spec_correction a hdim v0 v k =
     (let t = k div hdim; d = k mod hdim in
      6 / 10 * conv_k1_at (g_conv a) hdim
                 (\<lambda>c. data v0 ! (t * hdim + c)
                       - conv_k1_at (g_conv a) hdim (\<lambda>e. data v ! (t * hdim + e)) c) d)"

section \<open>Block\<close>

text \<open>
  \<open>nn.LayerNorm\<close> over the last axis (biased variance, learned scale and shift). It is
  the constructor's default \<open>norm_layer\<close>, which the model fixes.
\<close>

record LayerNorm =
  ln_dim :: nat
  ln_eps :: real
  ln_weight :: tensor
  ln_bias :: tensor

definition new_LayerNorm :: "init \<Rightarrow> string \<Rightarrow> int \<Rightarrow> real \<Rightarrow> LayerNorm result" where
  "new_LayerNorm ini name n eps =
     (if n < 0 then Inl RuntimeError
      else Inr \<lparr>ln_dim = nat n, ln_eps = eps,
                ln_weight = tab [nat n] (ini (name @ ''.weight'')),
                ln_bias = tab [nat n] (ini (name @ ''.bias''))\<rparr>)"

definition LayerNorm_forward :: "LayerNorm \<Rightarrow> tensor \<Rightarrow> tensor result" where
  "LayerNorm_forward n x =
     (if shape x \<noteq> [] \<and> last (shape x) = ln_dim n then
        Inr (tab (shape x)
          (\<lambda>k. let c = ln_dim n; r = k div c;
                   mean = (\<Sum>j\<leftarrow>[0..<c]. data x ! (r * c + j)) / real c;
                   var = (\<Sum>j\<leftarrow>[0..<c]. (data x ! (r * c + j) - mean)\<^sup>2) / real c
               in (data x ! k - mean) / sqrt (var + ln_eps n) * data (ln_weight n) ! (k mod c)
                  + data (ln_bias n) ! (k mod c)))
      else Inl RuntimeError)"

text \<open>
  The library's \<open>Mlp\<close>: \<open>fc1\<close>, the activation, dropout, \<open>fc2\<close>, dropout. The
  activation (\<open>act_layer\<close>, by default GELU) is an elementwise function, taken as a
  parameter. \<open>hidden_features or in_features\<close> replaces a zero hidden size by the input
  size.
\<close>

record Mlp =
  fc1 :: Linear
  act :: "real \<Rightarrow> real"
  mlp_drop :: real
  fc2 :: Linear

definition Mlp_init :: "init \<Rightarrow> int \<Rightarrow> int \<Rightarrow> (real \<Rightarrow> real) \<Rightarrow> real \<Rightarrow> Mlp result" where
  "Mlp_init ini in_features hidden_features act_layer drop_p =
     (let hidden = (if hidden_features = 0 then in_features else hidden_features) in
      ebind (new_Linear ini ''mlp.fc1'' in_features hidden True) (\<lambda>l1.
      ebind (new_Linear ini ''mlp.fc2'' hidden in_features True) (\<lambda>l2.
      ebind (new_Dropout drop_p) (\<lambda>dp.
      Inr \<lparr>fc1 = l1, act = act_layer, mlp_drop = dp, fc2 = l2\<rparr>))))"

definition Mlp_forward :: "Mlp \<Rightarrow> bool \<Rightarrow> noise \<Rightarrow> noise \<Rightarrow> tensor \<Rightarrow> tensor result" where
  "Mlp_forward m training u1 u2 x =
     ebind (Linear_forward (fc1 m) x) (\<lambda>x1.
     (let x2 = tab (shape x1) (\<lambda>k. act m (data x1 ! k));
          x3 = dropout (mlp_drop m) training u1 x2 in
      ebind (Linear_forward (fc2 m) x3) (\<lambda>x4.
      Inr (dropout (mlp_drop m) training u2 x4))))"

text \<open>
  The library's \<open>DropPath\<close> (stochastic depth): in training mode with a positive
  probability, a whole sample of the batch is zeroed when its uniform sample falls below
  the probability and the others are scaled by the keep probability; otherwise the input
  is returned.
\<close>

definition drop_path_fn :: "tensor \<Rightarrow> real \<Rightarrow> bool \<Rightarrow> noise \<Rightarrow> tensor" where
  "drop_path_fn x p training u =
     (if p = 0 \<or> \<not> training then x
      else tab (shape x)
        (\<lambda>k. if u (k div prod_list (tl (shape x))) < p then 0 else data x ! k / (1 - p)))"

record Block =
  norm1 :: LayerNorm
  attn :: Attention
  drop_path :: real
  norm2 :: LayerNorm
  mlp :: Mlp
  blk_layerth :: "int option"

definition py_int :: "real \<Rightarrow> int" where
  "py_int r = (if 0 \<le> r then \<lfloor>r\<rfloor> else \<lceil>r\<rceil>)"

text \<open>
  \<open>Block.__init__\<close> (lines 86-97). \<open>drop_path\<close> holds the probability; the source
  builds \<open>DropPath\<close> only when it is positive and the identity otherwise, which
  \<open>Block_drop_path\<close> follows.
\<close>

definition Block_init ::
  "init \<Rightarrow> real \<Rightarrow> int \<Rightarrow> int \<Rightarrow> real \<Rightarrow> bool \<Rightarrow> real \<Rightarrow> real \<Rightarrow> real \<Rightarrow> (real \<Rightarrow> real)
     \<Rightarrow> int option \<Rightarrow> Block result" where
  "Block_init ini eps dm nh mlp_ratio qkv_bias drop_p attn_drop_p drop_path_p act_layer lth =
     ebind (new_LayerNorm ini ''norm1'' dm eps) (\<lambda>n1.
     ebind (Attention_init (\<lambda>n. ini (''attn.'' @ n)) dm nh qkv_bias attn_drop_p drop_p lth) (\<lambda>att.
     ebind (new_LayerNorm ini ''norm2'' dm eps) (\<lambda>n2.
     ebind (Mlp_init ini dm (py_int (real_of_int dm * mlp_ratio)) act_layer drop_p) (\<lambda>ml.
     Inr \<lparr>norm1 = n1, attn = att, drop_path = drop_path_p, norm2 = n2, mlp = ml,
          blk_layerth = lth\<rparr>))))"

definition Block_drop_path :: "Block \<Rightarrow> bool \<Rightarrow> noise \<Rightarrow> tensor \<Rightarrow> tensor" where
  "Block_drop_path b training u x =
     (if drop_path b > 0 then drop_path_fn x (drop_path b) training u else x)"

record block_noise =
  nz_attn :: noise
  nz_proj :: noise
  nz_path1 :: noise
  nz_mlp1 :: noise
  nz_mlp2 :: noise
  nz_path2 :: noise

text \<open>
  \<open>Block.forward\<close> (lines 99-112). \<open>Block_rest\<close> is lines 106-108, which both
  layer kinds share; the two tests of \<open>self.layerth == 0\<close> (lines 101 and 109) read the
  same field and are one branch here. In the first layer the attention result is
  unpacked as a pair (a single tensor there would be iterated along its first axis); in
  the other layers a pair cannot be added to \<open>x\<close>.
\<close>

definition unpack_pair :: "attn_out \<Rightarrow> (tensor \<times> tensor) result" where
  "unpack_pair r =
     (case r of
        Pair y v \<Rightarrow> Inr (y, v)
      | Single t \<Rightarrow>
          if shape t = [] then Inl TypeError
          else ebind (unbind0 t) (\<lambda>ts. case ts of [y, v] \<Rightarrow> Inr (y, v) | _ \<Rightarrow> Inl ValueError))"

definition Block_rest :: "Block \<Rightarrow> bool \<Rightarrow> block_noise \<Rightarrow> tensor \<Rightarrow> tensor \<Rightarrow> tensor result" where
  "Block_rest b training nz x xa =
     ebind (tensor_add x (Block_drop_path b training (nz_path1 nz) xa)) (\<lambda>x1.
     ebind (LayerNorm_forward (norm2 b) x1) (\<lambda>x1n.
     ebind (Mlp_forward (mlp b) training (nz_mlp1 nz) (nz_mlp2 nz) x1n) (\<lambda>m.
     tensor_add x1 (Block_drop_path b training (nz_path2 nz) m))))"

definition Block_forward ::
  "Block \<Rightarrow> bool \<Rightarrow> block_noise \<Rightarrow> tensor \<Rightarrow> tensor option \<Rightarrow> attn_out result" where
  "Block_forward b training nz x v0 =
     ebind (LayerNorm_forward (norm1 b) x) (\<lambda>xn.
     if blk_layerth b = Some 0 then
       ebind (Attention_forward (attn b) training (nz_attn nz) (nz_proj nz) xn None) (\<lambda>r.
       ebind (unpack_pair r) (\<lambda>(xa, v).
       ebind (Block_rest b training nz x xa) (\<lambda>x2. Inr (Pair x2 v))))
     else
       ebind (Attention_forward (attn b) training (nz_attn nz) (nz_proj nz) xn v0) (\<lambda>r.
       (case r of
          Single xa \<Rightarrow> ebind (Block_rest b training nz x xa) (\<lambda>x2. Inr (Single x2))
        | Pair y v \<Rightarrow>
            Inl (if drop_path b > 0 \<and> training then AttributeError else TypeError))))"

section \<open>VisionTransformer\<close>

subsection \<open>Tensor operations of the orchestrator\<close>

text \<open>\<open>t.expand(b, -1, -1)\<close> on a tensor with three axes.\<close>

definition expand0 :: "tensor \<Rightarrow> nat \<Rightarrow> tensor result" where
  "expand0 t b =
     (case shape t of
        [d0, d1, d2] \<Rightarrow>
          if d0 = 1 \<or> d0 = b
          then Inr (tab [b, d1, d2] (\<lambda>k. data t ! (if d0 = 1 then k mod (d1 * d2) else k)))
          else Inl RuntimeError
      | _ \<Rightarrow> Inl RuntimeError)"

text \<open>
  \<open>torch.cat(ts, dim=1)\<close>. The library skips operands of shape \<open>[0]\<close>; the others
  must agree on every axis but the second.
\<close>

fun cat_pick :: "tensor list \<Rightarrow> nat \<Rightarrow> nat \<Rightarrow> nat \<Rightarrow> real" where
  "cat_pick [] a j r = 0"
| "cat_pick (t # ts) a j r =
     (let d1 = shape t ! 1; rr = prod_list (drop 2 (shape t)) in
      if j < d1 then data t ! ((a * d1 + j) * rr + r) else cat_pick ts a (j - d1) r)"

definition cat1 :: "tensor list \<Rightarrow> tensor result" where
  "cat1 ts =
     (case filter (\<lambda>t. shape t \<noteq> [0]) ts of
        [] \<Rightarrow> (if ts = [] then Inl RuntimeError else Inr (tab [0] (\<lambda>k. 0)))
      | u # us \<Rightarrow>
          if length (shape u) < 2 then Inl IndexError
          else if list_all (\<lambda>t. length (shape t) = length (shape u)
                                \<and> (shape t)[1 := 0] = (shape u)[1 := 0]) us
          then
            (let d1 = sum_list (map (\<lambda>t. shape t ! 1) (u # us));
                 rr = prod_list (drop 2 (shape u)) in
             Inr (tab (hd (shape u) # d1 # drop 2 (shape u))
               (\<lambda>k. cat_pick (u # us) (k div (d1 * rr)) ((k div rr) mod d1) (k mod rr))))
          else Inl RuntimeError)"

text \<open>\<open>t[:, j]\<close> and \<open>t[j]\<close>.\<close>

definition select1 :: "tensor \<Rightarrow> nat \<Rightarrow> tensor result" where
  "select1 t j =
     (case shape t of
        d0 # d1 # rest \<Rightarrow>
          if j < d1 then
            (let rr = prod_list rest in
             Inr (tab (d0 # rest) (\<lambda>k. data t ! (((k div rr) * d1 + j) * rr + k mod rr))))
          else Inl IndexError
      | _ \<Rightarrow> Inl IndexError)"

definition select0 :: "tensor \<Rightarrow> nat \<Rightarrow> tensor result" where
  "select0 t j =
     (case shape t of
        d0 # rest \<Rightarrow>
          if j < d0 then Inr (tab rest (\<lambda>k. data t ! (j * prod_list rest + k)))
          else Inl IndexError
      | _ \<Rightarrow> Inl IndexError)"

text \<open>
  The in-place assignment \<open>x[:, 0, :] = val\<close>, returning the updated \<open>x\<close>. The
  destination is the slice of shape \<open>d0 # d2 # rest\<close>; the library drops the leading
  axes of size one of \<open>val\<close> and broadcasts it to the destination.
\<close>

definition setitem_cls :: "tensor \<Rightarrow> tensor \<Rightarrow> tensor result" where
  "setitem_cls x val =
     (case shape x of
        d0 # d1 # d2 # rest \<Rightarrow>
          if d1 = 0 then Inl IndexError
          else
            (let dst = d0 # d2 # rest;
                 vs = dropWhile (\<lambda>d. d = 1) (shape val);
                 rr = prod_list (d2 # rest) in
             if length vs \<le> length dst
                \<and> list_all2 (\<lambda>a b. a = b \<or> a = 1) vs (drop (length dst - length vs) dst)
             then Inr (tab (shape x)
               (\<lambda>k. if (k div rr) mod d1 = 0
                     then data val ! bcast_index vs dst ((k div (d1 * rr)) * rr + k mod rr)
                     else data x ! k))
             else Inl RuntimeError)
      | _ \<Rightarrow> Inl IndexError)"

subsection \<open>The model\<close>

datatype head_layer = HLinear Linear | HIdentity

datatype pre_layer = PSequential Linear | PIdentity

definition head_forward :: "head_layer \<Rightarrow> tensor \<Rightarrow> tensor result" where
  "head_forward h x = (case h of HLinear l \<Rightarrow> Linear_forward l x | HIdentity \<Rightarrow> Inr x)"

definition pre_logits_forward :: "pre_layer \<Rightarrow> tensor \<Rightarrow> tensor result" where
  "pre_logits_forward p x =
     (case p of
        PSequential fc \<Rightarrow>
          ebind (Linear_forward fc x) (\<lambda>y. Inr (tab (shape y) (\<lambda>k. tanh (data y ! k))))
      | PIdentity \<Rightarrow> Inr x)"

record VisionTransformer =
  num_classes :: int
  num_features :: int
  embed_dim :: int
  num_tokens :: nat
  patch_embed :: "tensor \<Rightarrow> tensor result"
  cls_token :: tensor
  dist_token :: "tensor option"
  pos_embed :: tensor
  pos_drop :: real
  blocks :: "Block list"
  vt_norm :: LayerNorm
  pre_logits :: pre_layer
  head :: head_layer
  reverse_head :: head_layer
  head_dist :: "head_layer option"

text \<open>
  The constructor's arguments. \<open>embed_layer\<close> is an argument of the source; the model
  takes the patch embedding it builds (\<open>cfg_patch_embed\<close>, with its \<open>num_patches\<close>) as
  given, so \<open>img_size\<close>, \<open>patch_size\<close> and \<open>in_chans\<close>, which only \<open>embed_layer\<close> reads,
  do not appear. \<open>norm_layer\<close> is the default (LayerNorm with \<open>eps = 1e-6\<close>) and
  \<open>act_layer\<close> an elementwise function.
\<close>

record vt_config =
  cfg_num_classes :: int
  cfg_embed_dim :: int
  cfg_depth :: int
  cfg_num_heads :: int
  cfg_mlp_ratio :: real
  cfg_qkv_bias :: bool
  cfg_representation_size :: "int option"
  cfg_distilled :: bool
  cfg_drop_rate :: real
  cfg_attn_drop_rate :: real
  cfg_drop_path_rate :: real
  cfg_patch_embed :: "tensor \<Rightarrow> tensor result"
  cfg_num_patches :: nat
  cfg_act_layer :: "real \<Rightarrow> real"
  cfg_weight_init :: string

text \<open>The list comprehension of lines 164-168: the first constructor that raises ends it.\<close>

fun build_blocks :: "(nat \<Rightarrow> Block result) \<Rightarrow> nat list \<Rightarrow> Block list result" where
  "build_blocks mk [] = Inr []"
| "build_blocks mk (i # is) =
     ebind (mk i) (\<lambda>b. ebind (build_blocks mk is) (\<lambda>bs. Inr (b # bs)))"

text \<open>\<open>torch.linspace(0, rate, depth)[i]\<close>, the stochastic depth decay rule of line 163.\<close>

definition dpr :: "real \<Rightarrow> nat \<Rightarrow> nat \<Rightarrow> real" where
  "dpr rate depth i = (if depth = 1 then 0 else rate * real i / real (depth - 1))"

definition new_head :: "init \<Rightarrow> string \<Rightarrow> int \<Rightarrow> int \<Rightarrow> int \<Rightarrow> head_layer result" where
  "new_head ini name ncls inn out =
     (if ncls > 0 then ebind (new_Linear ini name inn out True) (\<lambda>l. Inr (HLinear l))
      else Inr HIdentity)"

text \<open>
  \<open>VisionTransformer.__init__\<close> (lines 122-191) with \<open>init_weights\<close> (lines 193-204):
  the mode is asserted to be one of four, and \<open>math.log(num_classes)\<close> raises for a
  non-positive argument in the two \<open>nlhb\<close> modes. The values the initialisers draw come
  from \<open>vini\<close> (and \<open>bini i\<close> for block \<open>i\<close>); the class token stays zero in the \<open>jax\<close>
  modes.
\<close>

definition VisionTransformer_init ::
  "vt_config \<Rightarrow> init \<Rightarrow> (nat \<Rightarrow> init) \<Rightarrow> VisionTransformer result" where
  "VisionTransformer_init cfg vini bini =
     (let e = cfg_embed_dim cfg; ncls = cfg_num_classes cfg; mode = cfg_weight_init cfg;
          nt = (if cfg_distilled cfg then 2 else 1 :: nat) in
      ebind (to_size e) (\<lambda>en.
      ebind (new_Dropout (cfg_drop_rate cfg)) (\<lambda>pd.
      ebind (to_size (cfg_depth cfg)) (\<lambda>dn.
      ebind (build_blocks
               (\<lambda>i. Block_init (bini i) (1 / 10 ^ 6) e (cfg_num_heads cfg) (cfg_mlp_ratio cfg)
                       (cfg_qkv_bias cfg) (cfg_drop_rate cfg) (cfg_attn_drop_rate cfg)
                       (dpr (cfg_drop_path_rate cfg) dn i) (cfg_act_layer cfg) (Some (int i)))
               [0..<dn]) (\<lambda>bs.
      ebind (new_LayerNorm vini ''norm'' e (1 / 10 ^ 6)) (\<lambda>nm.
      ebind (case cfg_representation_size cfg of
               None \<Rightarrow> Inr (e, PIdentity)
             | Some r \<Rightarrow>
                 if r \<noteq> 0 \<and> \<not> cfg_distilled cfg
                 then ebind (new_Linear vini ''pre_logits.fc'' e r True)
                        (\<lambda>l. Inr (r, PSequential l))
                 else Inr (e, PIdentity)) (\<lambda>(nf, pl).
      ebind (new_head vini ''head'' ncls nf ncls) (\<lambda>h.
      ebind (new_head vini ''reverse_head'' ncls ncls e) (\<lambda>rh.
      ebind (if cfg_distilled cfg
             then ebind (new_head vini ''head_dist'' ncls e ncls) (\<lambda>hd. Inr (Some hd))
             else Inr None) (\<lambda>hdist.
      if mode \<notin> {''jax'', ''jax_nlhb'', ''nlhb'', []} then Inl AssertionError
      else if mode \<in> {''jax_nlhb'', ''nlhb''} \<and> ncls \<le> 0 then Inl ValueError
      else Inr \<lparr>num_classes = ncls, num_features = nf, embed_dim = e, num_tokens = nt,
                patch_embed = cfg_patch_embed cfg,
                cls_token = tab [1, 1, en]
                  (if mode \<in> {''jax'', ''jax_nlhb''} then (\<lambda>k. 0) else vini ''cls_token''),
                dist_token = (if cfg_distilled cfg
                              then Some (tab [1, 1, en] (vini ''dist_token'')) else None),
                pos_embed = tab [1, cfg_num_patches cfg + nt, en] (vini ''pos_embed''),
                pos_drop = pd, blocks = bs, vt_norm = nm, pre_logits = pl, head = h,
                reverse_head = rh, head_dist = hdist\<rparr>))))))))))"

record vt_noise =
  nz_pos :: noise
  nz_blocks :: "nat \<Rightarrow> block_noise"

text \<open>\<open>self.blocks[i]\<close> for a non-negative \<open>i\<close>: an index past the list raises.\<close>

definition get_block :: "VisionTransformer \<Rightarrow> nat \<Rightarrow> Block result" where
  "get_block m i = (if i < length (blocks m) then Inr (blocks m ! i) else Inl IndexError)"

text \<open>
  Lines 243-244, the feedback rewrite: the provisional class prediction from the class
  token of the normalised sequence, projected back and written into slot \<open>0\<close> of \<open>x\<close>.
\<close>

definition mid_class_prediction :: "VisionTransformer \<Rightarrow> tensor \<Rightarrow> tensor result" where
  "mid_class_prediction m x =
     ebind (LayerNorm_forward (vt_norm m) x) (\<lambda>xn.
     ebind (select1 xn 0) (\<lambda>c.
     ebind (pre_logits_forward (pre_logits m) c) (\<lambda>pl.
     head_forward (head m) pl)))"

definition feedback :: "VisionTransformer \<Rightarrow> tensor \<Rightarrow> tensor result" where
  "feedback m x =
     ebind (mid_class_prediction m x) (\<lambda>mid.
     ebind (head_forward (reverse_head m) mid) (\<lambda>rv.
     setitem_cls x rv))"

text \<open>
  The loop of lines 241-244 over a list of indices; the source runs it on
  \<open>range(1, 11)\<close>. A block that returned a pair would make \<open>self.norm\<close> raise.
\<close>

fun feedback_loop ::
  "VisionTransformer \<Rightarrow> bool \<Rightarrow> (nat \<Rightarrow> block_noise) \<Rightarrow> tensor \<Rightarrow> nat list \<Rightarrow> tensor
     \<Rightarrow> tensor result" where
  "feedback_loop m training nzb v0 [] x = Inr x"
| "feedback_loop m training nzb v0 (i # is) x =
     ebind (get_block m i) (\<lambda>b.
     ebind (Block_forward b training (nzb i) x (Some v0)) (\<lambda>r.
     (case r of
        Single y \<Rightarrow> ebind (feedback m y) (\<lambda>x'. feedback_loop m training nzb v0 is x')
      | Pair y v \<Rightarrow> Inl TypeError)))"

datatype features = Feat tensor | FeatPair tensor tensor

text \<open>
  \<open>VisionTransformer.forward_features\<close> (lines 232-250); \<open>embed_tokens\<close> is lines
  233-239.
\<close>

definition embed_tokens :: "VisionTransformer \<Rightarrow> bool \<Rightarrow> noise \<Rightarrow> tensor \<Rightarrow> tensor result" where
  "embed_tokens m training u x =
     ebind (patch_embed m x) (\<lambda>x1.
     (case shape x1 of
        [] \<Rightarrow> Inl IndexError
      | b # _ \<Rightarrow>
          ebind (expand0 (cls_token m) b) (\<lambda>cls.
          ebind (case dist_token m of
                   None \<Rightarrow> cat1 [cls, x1]
                 | Some d \<Rightarrow> ebind (expand0 d b) (\<lambda>de. cat1 [cls, de, x1])) (\<lambda>x2.
          ebind (tensor_add x2 (pos_embed m)) (\<lambda>x3.
          Inr (dropout (pos_drop m) training u x3))))))"

definition forward_features ::
  "VisionTransformer \<Rightarrow> bool \<Rightarrow> vt_noise \<Rightarrow> tensor \<Rightarrow> features result" where
  "forward_features m training nz x =
     ebind (embed_tokens m training (nz_pos nz) x) (\<lambda>x4.
     ebind (get_block m 0) (\<lambda>b0.
     ebind (Block_forward b0 training (nz_blocks nz 0) x4 None) (\<lambda>r0.
     ebind (unpack_pair r0) (\<lambda>(x5, v0).
     ebind (feedback_loop m training (nz_blocks nz) v0 [1..<11] x5) (\<lambda>x6.
     ebind (LayerNorm_forward (vt_norm m) x6) (\<lambda>x7.
     (case dist_token m of
        None \<Rightarrow>
          ebind (select1 x7 0) (\<lambda>c.
          ebind (pre_logits_forward (pre_logits m) c) (\<lambda>f. Inr (Feat f)))
      | Some d \<Rightarrow>
          ebind (select1 x7 0) (\<lambda>c.
          ebind (select1 x7 1) (\<lambda>c1. Inr (FeatPair c c1))))))))))"

datatype vt_out = Logits tensor | LogitsPair tensor tensor

text \<open>
  \<open>VisionTransformer.forward\<close> (lines 252-263). With a distillation head the features
  are indexed as \<open>x[0]\<close> and \<open>x[1]\<close>; in training mode both predictions are returned,
  otherwise their mean.
\<close>

definition feature_item :: "features \<Rightarrow> nat \<Rightarrow> tensor result" where
  "feature_item f j =
     (case f of
        FeatPair a b \<Rightarrow> (if j = 0 then Inr a else if j = 1 then Inr b else Inl IndexError)
      | Feat t \<Rightarrow> select0 t j)"

definition forward :: "VisionTransformer \<Rightarrow> bool \<Rightarrow> vt_noise \<Rightarrow> tensor \<Rightarrow> vt_out result" where
  "forward m training nz x =
     ebind (forward_features m training nz x) (\<lambda>f.
     (case head_dist m of
        Some hdl \<Rightarrow>
          ebind (feature_item f 0) (\<lambda>f0.
          ebind (head_forward (head m) f0) (\<lambda>y.
          ebind (feature_item f 1) (\<lambda>f1.
          ebind (head_forward hdl f1) (\<lambda>y_dist.
          if training then Inr (LogitsPair y y_dist)
          else ebind (tensor_add y y_dist) (\<lambda>s. Inr (Logits (mul_scalar s (1 / 2))))))))
      | None \<Rightarrow>
          (case f of
             Feat t \<Rightarrow> ebind (head_forward (head m) t) (\<lambda>y. Inr (Logits y))
           | FeatPair a b \<Rightarrow>
               (case head m of HLinear l \<Rightarrow> Inl TypeError | HIdentity \<Rightarrow> Inr (LogitsPair a b)))))"

section \<open>Dropout-free models and a concrete configuration\<close>

text \<open>
  Every dropout probability of the model is zero: the positional dropout, and in every
  block the attention dropout, the projection dropout, the dropout of the \<open>Mlp\<close> and
  the stochastic depth probability.
\<close>

definition no_dropout :: "VisionTransformer \<Rightarrow> bool" where
  "no_dropout m =
     (pos_drop m = 0
      \<and> list_all (\<lambda>b. attn_drop (attn b) = 0 \<and> proj_drop (attn b) = 0
                      \<and> mlp_drop (mlp b) = 0 \<and> drop_path b = 0) (blocks m))"

text \<open>
  The configuration of the source's own example (lines 320-328: \<open>num_classes = 1000\<close>,
  \<open>embed_dim = 768\<close>, \<open>num_heads = 12\<close>, \<open>mlp_ratio = 4\<close>, the other arguments at their
  defaults), with the depth as a parameter. The patch embedding is a stand-in for the
  library's: on a batch of images it returns zeros of the shape its contract gives,
  \<open>[B, 196, 768]\<close>. The activation is the rectifier. All initial parameter values and all
  dropout samples are zero.
\<close>

definition demo_patch_embed :: "tensor \<Rightarrow> tensor result" where
  "demo_patch_embed x =
     (case shape x of
        [b, c, h, w] \<Rightarrow> Inr (tab [b, 196, 768] (\<lambda>k. 0))
      | _ \<Rightarrow> Inl RuntimeError)"

definition demo_config :: "int \<Rightarrow> vt_config" where
  "demo_config d =
     \<lparr>cfg_num_classes = 1000, cfg_embed_dim = 768, cfg_depth = d, cfg_num_heads = 12,
      cfg_mlp_ratio = 4, cfg_qkv_bias = True, cfg_representation_size = None,
      cfg_distilled = False, cfg_drop_rate = 0, cfg_attn_drop_rate = 0,
      cfg_drop_path_rate = 0, cfg_patch_embed = demo_patch_embed, cfg_num_patches = 196,
      cfg_act_layer = (\<lambda>v. max 0 v), cfg_weight_init = []\<rparr>"

definition zero_init :: init where
  "zero_init name k = 0"

definition demo_model :: "int \<Rightarrow> VisionTransformer result" where
  "demo_model d = VisionTransformer_init (demo_config d) zero_init (\<lambda>i. zero_init)"

definition const_noise :: "real \<Rightarrow> vt_noise" where
  "const_noise c =
     \<lparr>nz_pos = (\<lambda>k. c),
      nz_blocks = (\<lambda>i. \<lparr>nz_attn = (\<lambda>k. c), nz_proj = (\<lambda>k. c), nz_path1 = (\<lambda>k. c),
                           nz_mlp1 = (\<lambda>k. c), nz_mlp2 = (\<lambda>k. c), nz_path2 = (\<lambda>k. c)\<rparr>)\<rparr>"

definition demo_images :: tensor where
  "demo_images = tab [8, 3, 224, 224] (\<lambda>k. 0)"



section \<open>Basic facts\<close>

lemma ebind_Inl [simp]: "ebind (Inl e) f = Inl e" by (simp add: ebind_def)
lemma ebind_Inr [simp]: "ebind (Inr v) f = f v" by (simp add: ebind_def)

lemma isl_ebind: "isl m \<Longrightarrow> isl (ebind m f)"
  by (cases m) simp_all

lemma ebind_eq_Inr: "ebind m f = Inr y \<longleftrightarrow> (\<exists>v. m = Inr v \<and> f v = Inr y)"
  by (cases m) simp_all

lemma shape_tab [simp]: "shape (tab s f) = s" by (simp add: tab_def)
lemma length_data_tab [simp]: "length (data (tab s f)) = prod_list s" by (simp add: tab_def)
lemma nth_data_tab [simp]: "k < prod_list s \<Longrightarrow> data (tab s f) ! k = f k" by (simp add: tab_def)
lemma wf_tab [simp]: "wf_tensor (tab s f)" by (simp add: wf_tensor_def)

lemma Attention_init_cases:
  "Attention_init ini dm nh qb ad pd lth =
     (if nh = 0 then Inl ZeroDivisionError
      else if dm mod nh \<noteq> 0 then Inl AssertionError
      else if dm = 0 then Inl ZeroDivisionError
      else if dm < 0 then Inl RuntimeError
      else if ad < 0 \<or> 1 < ad then Inl ValueError
      else if pd < 0 \<or> 1 < pd then Inl ValueError
      else if nh < 0 then Inl RuntimeError
      else Inr \<lparr>num_heads = nh, scale = real_of_int (dm div nh) powr (- (1 / 2)),
                qkv = \<lparr>lin_weight = tab [nat (dm * 3), nat dm] (ini ''qkv.weight''),
                        lin_bias = (if qb then Some (tab [nat (dm * 3)] (ini ''qkv.bias'')) else None)\<rparr>,
                attn_drop = ad,
                proj = \<lparr>lin_weight = tab [nat dm, nat dm] (ini ''proj.weight''),
                         lin_bias = Some (tab [nat dm] (ini ''proj.bias''))\<rparr>,
                proj_drop = pd, alpha = 6 / 10, layerth = lth, dim = dm,
                g_conv = \<lparr>conv_weight = tab [nat (dm div nh), nat (dm div nh), 1] (ini ''g_conv.weight''),
                           conv_bias = Some (tab [nat (dm div nh)] (ini ''g_conv.bias'')),
                           conv_stride = 1, conv_padding = 0, conv_dilation = 1\<rparr>\<rparr>)"
proof -
  consider "nh = 0" | "nh \<noteq> 0" "dm mod nh \<noteq> 0" | "nh \<noteq> 0" "dm mod nh = 0" "dm = 0"
    | "nh \<noteq> 0" "dm mod nh = 0" "dm < 0" | "nh \<noteq> 0" "dm mod nh = 0" "0 < dm" "nh < 0"
    | "dm mod nh = 0" "0 < dm" "0 < nh"
    by linarith
  then show ?thesis
  proof cases
    case 1
    then show ?thesis by (simp add: Attention_init_def)
  next
    case 2
    then show ?thesis by (simp add: Attention_init_def)
  next
    case 3
    then show ?thesis by (simp add: Attention_init_def)
  next
    case 4
    then have "nh dvd dm" by (simp add: dvd_eq_mod_eq_0)
    with 4 have "dm div nh \<noteq> 0" by (auto simp: dvd_div_eq_0_iff)
    with 4 show ?thesis
      by (simp add: Attention_init_def Let_def new_Linear_def)
  next
    case 5
    then have "dm div nh < 0" by (simp add: neg_imp_zdiv_neg_iff)
    with 5 show ?thesis
      by (simp add: Attention_init_def Let_def new_Linear_def new_Dropout_def new_Conv1d_def)
  next
    case 6
    then have "nh dvd dm" by (simp add: dvd_eq_mod_eq_0)
    with 6 have "nh \<le> dm" by (simp add: zdvd_imp_le)
    with 6 have "0 < dm div nh" by (simp add: pos_imp_zdiv_pos_iff)
    with 6 show ?thesis
      by (simp add: Attention_init_def Let_def new_Linear_def new_Dropout_def new_Conv1d_def)
  qed
qed

section \<open>Shapes through the attention call\<close>

lemma reshape_Inr: "prod_list s = prod_list (shape t) \<Longrightarrow> reshape t s = Inr (t\<lparr>shape := s\<rparr>)"
  by (simp add: reshape_def numel_def)

lemma wf_reshape: "wf_tensor t \<Longrightarrow> prod_list s = prod_list (shape t) \<Longrightarrow> wf_tensor (t\<lparr>shape := s\<rparr>)"
  by (simp add: wf_tensor_def)

lemma upt5: "[0..<5] = [0,1,2,3,4]" by (simp add: upt_rec)
lemma upt4: "[0..<4] = [0,1,2,3]" by (simp add: upt_rec)
lemma upt3: "[0..<3] = [0,1,2]" by (simp add: upt_rec)

lemma permute_20314:
  "shape t = [a, b, c, d, e] \<Longrightarrow>
   \<exists>t'. permute t [2, 0, 3, 1, 4] = Inr t' \<and> shape t' = [c, a, d, b, e] \<and> wf_tensor t'"
  by (simp add: permute_def Let_def upt5)

lemma permute_021:
  "shape t = [a, b, c] \<Longrightarrow>
   \<exists>t'. permute t [0, 2, 1] = Inr t' \<and> shape t' = [a, c, b] \<and> wf_tensor t'"
  by (simp add: permute_def Let_def upt3)

lemma transpose_last_4:
  "shape t = [a, b, c, d] \<Longrightarrow>
   \<exists>t'. transpose_dims t (- 2) (- 1) = Inr t' \<and> shape t' = [a, b, d, c] \<and> wf_tensor t'"
  by (simp add: transpose_dims_def norm_dim_def permute_def Let_def upt4)

lemma transpose_12_4:
  "shape t = [a, b, c, d] \<Longrightarrow>
   \<exists>t'. transpose_dims t 1 2 = Inr t' \<and> shape t' = [a, c, b, d] \<and> wf_tensor t'"
  by (simp add: transpose_dims_def norm_dim_def permute_def Let_def upt4)

lemma unbind0_3:
  "shape t = [3, a, b, c, d] \<Longrightarrow>
   \<exists>q k v. unbind0 t = Inr [q, k, v] \<and> shape q = [a, b, c, d] \<and> shape k = [a, b, c, d]
      \<and> shape v = [a, b, c, d] \<and> wf_tensor q \<and> wf_tensor k \<and> wf_tensor v"
  by (simp add: unbind0_def upt3)

lemma matmul_4:
  "shape x = [a, b, n, m] \<Longrightarrow> shape y = [a, b, m, p] \<Longrightarrow>
   \<exists>t'. matmul x y = Inr t' \<and> shape t' = [a, b, n, p] \<and> wf_tensor t'"
  by (simp add: matmul_def Let_def)

lemma linear_3:
  "shape w = [out, c] \<Longrightarrow> shape x = [a, b, c] \<Longrightarrow> (case bs of None \<Rightarrow> True | Some bt \<Rightarrow> shape bt = [out]) \<Longrightarrow>
   \<exists>t'. linear x w bs = Inr t' \<and> shape t' = [a, b, out] \<and> wf_tensor t'"
  by (simp add: linear_def)

lemma shape_mul_scalar [simp]: "shape (mul_scalar t c) = shape t" by (simp add: mul_scalar_def)
lemma wf_mul_scalar [simp]: "wf_tensor (mul_scalar t c)" by (simp add: mul_scalar_def)
lemma shape_add_scalar [simp]: "shape (add_scalar t c) = shape t" by (simp add: add_scalar_def)
lemma wf_add_scalar [simp]: "wf_tensor (add_scalar t c)" by (simp add: add_scalar_def)
lemma shape_softmax [simp]: "shape (softmax_last t) = shape t" by (simp add: softmax_last_def Let_def)
lemma wf_softmax [simp]: "wf_tensor (softmax_last t)" by (simp add: softmax_last_def Let_def)
lemma shape_dropout [simp]: "shape (dropout p tr u t) = shape t" by (simp add: dropout_def)
lemma wf_dropout [simp]: "wf_tensor t \<Longrightarrow> wf_tensor (dropout p tr u t)" by (simp add: dropout_def)


lemma broadcast_shapes_same [simp]: "broadcast_shapes s s = Some s"
proof -
  have "map2 (\<lambda>a b. if a = 1 then b else a) s s = s"
    by (induction s) auto
  then show ?thesis
    by (simp add: broadcast_shapes_def list_all2_same)
qed

lemma binop_same:
  "shape x = shape y \<Longrightarrow> \<exists>t'. binop f x y = Inr t' \<and> shape t' = shape x \<and> wf_tensor t'"
  by (simp add: binop_def)

lemma attention_weights_ok:
  assumes init: "Attention_init ini dm nh qb ad pd lth = Inr a"
      and x: "shape x = [B, N, nat dm]"
  shows "\<exists>attn v. attention_weights a tr u x = Inr (B, N, nat dm, attn, v)
           \<and> shape attn = [B, nat nh, N, N] \<and> shape v = [B, nat nh, N, nat (dm div nh)]
           \<and> wf_tensor attn \<and> wf_tensor v"
proof -
  from init have pos: "0 < dm" "0 < nh" "dm mod nh = 0"
    by (auto simp: Attention_init_cases split: if_splits)
  from init pos have a: "num_heads a = nh" "shape (lin_weight (qkv a)) = [nat (dm * 3), nat dm]"
    "(case lin_bias (qkv a) of None \<Rightarrow> True | Some bt \<Rightarrow> shape bt = [nat (dm * 3)])"
    by (auto simp: Attention_init_cases split: if_splits)
  from pos have hd: "0 \<le> dm div nh" by (simp add: pos_imp_zdiv_nonneg_iff)
  from pos have prod: "nat nh * nat (dm div nh) = nat dm"
    by (metis hd less_imp_le mod_0_imp_dvd dvd_mult_div_cancel nat_mult_distrib)
  obtain y where y: "Linear_forward (qkv a) x = Inr y" "shape y = [B, N, nat (dm * 3)]"
    using linear_3 [OF a(2) x a(3)] by (auto simp: Linear_forward_def)
  have "prod_list [B, N, 3, nat nh, nat (dm div nh)] = prod_list (shape y)"
    using pos prod y(2) by (simp add: nat_mult_distrib algebra_simps)
  then have r: "reshape y [B, N, 3, nat nh, nat (dm div nh)]
                  = Inr (y\<lparr>shape := [B, N, 3, nat nh, nat (dm div nh)]\<rparr>)"
    by (rule reshape_Inr)
  obtain t where t: "permute (y\<lparr>shape := [B, N, 3, nat nh, nat (dm div nh)]\<rparr>) [2, 0, 3, 1, 4] = Inr t"
      "shape t = [3, B, nat nh, N, nat (dm div nh)]"
    using permute_20314 [of "y\<lparr>shape := [B, N, 3, nat nh, nat (dm div nh)]\<rparr>"] by auto
  obtain q k v where u: "unbind0 t = Inr [q, k, v]" "shape q = [B, nat nh, N, nat (dm div nh)]"
      "shape k = [B, nat nh, N, nat (dm div nh)]" "shape v = [B, nat nh, N, nat (dm div nh)]"
      "wf_tensor v"
    using unbind0_3 [OF t(2)] by auto
  obtain kt where kt: "transpose_dims k (- 2) (- 1) = Inr kt" "shape kt = [B, nat nh, nat (dm div nh), N]"
    using transpose_last_4 [OF u(3)] by auto
  obtain qk where qk: "matmul q kt = Inr qk" "shape qk = [B, nat nh, N, N]" "wf_tensor qk"
    using matmul_4 [OF u(2) kt(2)] by auto
  show ?thesis
    using pos hd a(1) x y r t u kt qk
    by (simp add: attention_weights_def py_floordiv_def to_size_def)
qed


lemma conv1d_k1_shape:
  assumes "shape x = [bn, c, l]" "shape w = [co, c, 1]" "0 < l"
     "(case bs of None \<Rightarrow> True | Some bt \<Rightarrow> shape bt = [co])"
  shows "\<exists>t'. conv1d x w bs 1 0 1 = Inr t' \<and> shape t' = [bn, co, l] \<and> wf_tensor t'"
  using assms by (simp add: conv1d_def conv1d_batched_def Let_def)

lemma flip2_3_shape:
  "shape w = [a, b, c] \<Longrightarrow> \<exists>t'. flip2 w = Inr t' \<and> shape t' = [a, b, c] \<and> wf_tensor t'"
  by (simp add: flip2_def Let_def)

lemma attention_res_ok:
  assumes init: "Attention_init ini dm nh qb ad pd (Some l) = Inr a"
      and l: "0 < l" and n: "0 < N"
      and v: "shape v = [B, nat nh, N, nat (dm div nh)]"
      and v0: "prod_list (shape v0) = B * nat nh * N * nat (dm div nh)"
  shows "\<exists>res. attention_res a B N (nat dm) v (Some v0) = Inr (Tens res)
           \<and> shape res = [B, nat nh, N, nat (dm div nh)] \<and> wf_tensor res"
proof -
  let ?H = "nat nh" and ?hd = "nat (dm div nh)"
  from init have pos: "0 < dm" "0 < nh" "dm mod nh = 0"
    by (auto simp: Attention_init_cases split: if_splits)
  from init pos have a: "num_heads a = nh" "layerth a = Some l"
    "shape (conv_weight (g_conv a)) = [?hd, ?hd, 1]"
    "(case conv_bias (g_conv a) of None \<Rightarrow> True | Some bt \<Rightarrow> shape bt = [?hd])"
    "conv_stride (g_conv a) = 1" "conv_padding (g_conv a) = 0" "conv_dilation (g_conv a) = 1"
    by (auto simp: Attention_init_cases split: if_splits)
  from pos have hd: "0 \<le> dm div nh" by (simp add: pos_imp_zdiv_nonneg_iff)
  have r0: "reshape v0 [B * ?H, N, ?hd] = Inr (v0\<lparr>shape := [B * ?H, N, ?hd]\<rparr>)"
    by (rule reshape_Inr) (simp add: v0)
  obtain v0p where v0p: "permute (v0\<lparr>shape := [B * ?H, N, ?hd]\<rparr>) [0, 2, 1] = Inr v0p"
      "shape v0p = [B * ?H, ?hd, N]"
    using permute_021 [of "v0\<lparr>shape := [B * ?H, N, ?hd]\<rparr>"] by auto
  have r1: "reshape v [B * ?H, N, ?hd] = Inr (v\<lparr>shape := [B * ?H, N, ?hd]\<rparr>)"
    by (rule reshape_Inr) (simp add: v)
  obtain vp where vp: "permute (v\<lparr>shape := [B * ?H, N, ?hd]\<rparr>) [0, 2, 1] = Inr vp"
      "shape vp = [B * ?H, ?hd, N]"
    using permute_021 [of "v\<lparr>shape := [B * ?H, N, ?hd]\<rparr>"] by auto
  obtain gv where gv: "Conv1d_forward (g_conv a) vp = Inr gv" "shape gv = [B * ?H, ?hd, N]"
    using conv1d_k1_shape [OF vp(2) a(3) n a(4)] a(5-7) by (auto simp: Conv1d_forward_def)
  obtain df where df: "tensor_sub v0p gv = Inr df" "shape df = [B * ?H, ?hd, N]"
    using binop_same [of v0p gv "(-)"] v0p(2) gv(2) by (auto simp: tensor_sub_def)
  obtain fw where fw: "flip2 (conv_weight (g_conv a)) = Inr fw" "shape fw = [?hd, ?hd, 1]"
    using flip2_3_shape [OF a(3)] by auto
  obtain adj where adj: "adjoint_conv (g_conv a) df = Inr adj" "shape adj = [B * ?H, ?hd, N]"
    using conv1d_k1_shape [OF df(2) fw(2) n a(4)] a(5-7) fw(1) by (auto simp: adjoint_conv_def)
  obtain r2 where r2: "permute (mul_scalar adj (alpha a)) [0, 2, 1] = Inr r2"
      "shape r2 = [B * ?H, N, ?hd]" "wf_tensor r2"
    using permute_021 [of "mul_scalar adj (alpha a)"] adj(2) by auto
  have r3: "reshape r2 [B, ?H, N, ?hd] = Inr (r2\<lparr>shape := [B, ?H, N, ?hd]\<rparr>)"
    by (rule reshape_Inr) (simp add: r2)
  have "wf_tensor (r2\<lparr>shape := [B, ?H, N, ?hd]\<rparr>)"
    using r2 by (simp add: wf_tensor_def)
  then show ?thesis
    using pos hd l a(1,2) r0 v0p r1 vp gv df adj r2 r3
    by (simp add: attention_res_def py_floordiv_def to_size_def)
qed

lemma Attention_forward_ok:
  assumes init: "Attention_init ini dm nh qb ad pd (Some l) = Inr a"
      and x: "shape x = [B, N, nat dm]"
      and later: "0 < l \<longrightarrow> 0 < N \<and> (\<exists>v0t. v0 = Some v0t \<and> prod_list (shape v0t) = B * N * nat dm)"
      and l0: "0 \<le> l"
  shows "\<exists>out v. Attention_forward a tr u1 u2 x v0 = Inr (if l = 0 then Pair out v else Single out)
           \<and> shape out = [B, N, nat dm] \<and> shape v = [B, nat nh, N, nat (dm div nh)]
           \<and> wf_tensor out \<and> wf_tensor v"
proof -
  let ?H = "nat nh" and ?hd = "nat (dm div nh)"
  from init have pos: "0 < dm" "0 < nh" "dm mod nh = 0"
    by (auto simp: Attention_init_cases split: if_splits)
  from init pos have a: "layerth a = Some l" "shape (lin_weight (proj a)) = [nat dm, nat dm]"
    "(case lin_bias (proj a) of None \<Rightarrow> True | Some bt \<Rightarrow> shape bt = [nat dm])"
    by (auto simp: Attention_init_cases split: if_splits)
  from pos have hd: "0 \<le> dm div nh" by (simp add: pos_imp_zdiv_nonneg_iff)
  from pos have prod: "?H * ?hd = nat dm"
    by (metis hd less_imp_le mod_0_imp_dvd dvd_mult_div_cancel nat_mult_distrib)
  obtain attn v where w: "attention_weights a tr u1 x = Inr (B, N, nat dm, attn, v)"
      "shape attn = [B, ?H, N, N]" "shape v = [B, ?H, N, ?hd]" "wf_tensor v"
    using attention_weights_ok [OF init x] by blast
  obtain av where av: "matmul attn v = Inr av" "shape av = [B, ?H, N, ?hd]"
    using matmul_4 [OF w(2) w(3)] by auto
  have "\<exists>res x1. attention_res a B N (nat dm) v v0 = Inr res \<and> add_operand av res = Inr x1
           \<and> shape x1 = [B, ?H, N, ?hd]"
  proof (cases "0 < l")
    case True
    with later obtain v0t where v0t: "v0 = Some v0t" "prod_list (shape v0t) = B * N * nat dm" "0 < N"
      by auto
    have "prod_list (shape v0t) = B * ?H * N * ?hd"
      using v0t(2) prod [symmetric] by (simp add: algebra_simps)
    from attention_res_ok [OF init True v0t(3) w(3) this]
    obtain res where res: "attention_res a B N (nat dm) v (Some v0t) = Inr (Tens res)"
        "shape res = [B, ?H, N, ?hd]" by auto
    obtain x1 where "tensor_add av res = Inr x1" "shape x1 = [B, ?H, N, ?hd]"
      using binop_same [of av res "(+)"] av(2) res(2) by (auto simp: tensor_add_def)
    with res v0t show ?thesis by (simp add: add_operand_def)
  next
    case False
    with a(1) show ?thesis
      by (simp add: attention_res_def add_operand_def av)
  qed
  then obtain res x1 where x1: "attention_res a B N (nat dm) v v0 = Inr res"
      "add_operand av res = Inr x1" "shape x1 = [B, ?H, N, ?hd]" by blast
  have pp: "attention_pre_proj a tr u1 x v0 = Inr (x1, v)"
    by (simp add: attention_pre_proj_def w av x1)
  obtain x2 where x2: "transpose_dims x1 1 2 = Inr x2" "shape x2 = [B, N, ?H, ?hd]"
    using transpose_12_4 [OF x1(3)] by auto
  have r: "reshape x2 [B, N, nat dm] = Inr (x2\<lparr>shape := [B, N, nat dm]\<rparr>)"
    by (rule reshape_Inr) (simp add: x2 prod [symmetric])
  obtain x4 where x4: "Linear_forward (proj a) (x2\<lparr>shape := [B, N, nat dm]\<rparr>) = Inr x4"
      "shape x4 = [B, N, nat dm]" "wf_tensor x4"
    using linear_3 [OF a(2) _ a(3), of "x2\<lparr>shape := [B, N, nat dm]\<rparr>" B N]
    by (auto simp: Linear_forward_def)
  have "Attention_forward a tr u1 u2 x v0
          = Inr (if l = 0 then Pair (dropout (proj_drop a) tr u2 x4) v
                 else Single (dropout (proj_drop a) tr u2 x4))"
    using pp x x2 r x4 a(1) by (simp add: Attention_forward_def)
  then show ?thesis
    using x4 w(3,4) by (intro exI [of _ "dropout (proj_drop a) tr u2 x4"] exI [of _ v]) simp
qed


text \<open>
  C5. For an attention module built by the constructor with layer index \<open>0\<close>, a call
  on an input of shape \<open>(B, N, C)\<close> with \<open>C = dim\<close> returns a pair \<open>(output, v)\<close>
  with \<open>output\<close> of shape \<open>(B, N, C)\<close> and \<open>v\<close> of shape
  \<open>(B, num_heads, N, C / num_heads)\<close>; with a layer index above \<open>0\<close> no call returns a
  pair, and a call on at least one token with a \<open>v0\<close> of as many elements as the
  input returns a single tensor of shape \<open>(B, N, C)\<close>. The witness is the instance \<open>B = 1\<close>, \<open>N = 16\<close>, \<open>C = 64\<close>, \<open>num_heads = 8\<close>
  with \<open>v\<close> of shape \<open>(1, 8, 16, 8)\<close>.
\<close>

theorem Attention_forward_return_kind:
  assumes init: "Attention_init ini dm nh qb ad pd (Some l) = Inr a"
  shows "(l = 0 \<longrightarrow> (\<forall>B N x v0. shape x = [B, N, nat dm] \<longrightarrow>
            (\<exists>out v. Attention_forward a tr u1 u2 x v0 = Inr (Pair out v)
                \<and> shape out = [B, N, nat dm] \<and> shape v = [B, nat nh, N, nat dm div nat nh])))
       \<and> (0 < l \<longrightarrow> (\<forall>x v0 out v. Attention_forward a tr u1 u2 x v0 \<noteq> Inr (Pair out v)))
       \<and> (0 < l \<longrightarrow> (\<forall>B N x v0. shape x = [B, N, nat dm] \<longrightarrow> 0 < N \<longrightarrow>
            prod_list (shape v0) = B * N * nat dm \<longrightarrow>
            (\<exists>out. Attention_forward a tr u1 u2 x (Some v0) = Inr (Single out)
                \<and> shape out = [B, N, nat dm])))"
proof (intro conjI impI allI)
  fix B N :: nat and x :: tensor and v0 :: "tensor option"
  assume l: "l = 0" and x: "shape x = [B, N, nat dm]"
  from init have pos: "0 < dm" "0 < nh"
    by (auto simp: Attention_init_cases split: if_splits)
  then have "nat dm div nat nh = nat (dm div nh)"
    by (simp add: nat_div_distrib)
  moreover from Attention_forward_ok [OF init x, of v0 tr u1 u2] l
  obtain out v where "Attention_forward a tr u1 u2 x v0 = Inr (Pair out v)"
    "shape out = [B, N, nat dm]" "shape v = [B, nat nh, N, nat (dm div nh)]"
    by auto
  ultimately show "\<exists>out v. Attention_forward a tr u1 u2 x v0 = Inr (Pair out v)
                \<and> shape out = [B, N, nat dm] \<and> shape v = [B, nat nh, N, nat dm div nat nh]"
    by auto
next
  fix x out v :: tensor and v0 :: "tensor option"
  assume l: "0 < l"
  from init have "layerth a = Some l"
    by (auto simp: Attention_init_cases split: if_splits)
  with l show "Attention_forward a tr u1 u2 x v0 \<noteq> Inr (Pair out v)"
    by (auto simp: Attention_forward_def ebind_eq_Inr split: list.splits)
next
  fix B N :: nat and x v0 :: tensor
  assume l: "0 < l" and x: "shape x = [B, N, nat dm]" and n: "0 < N"
    and v0: "prod_list (shape v0) = B * N * nat dm"
  from Attention_forward_ok [OF init x, of "Some v0" tr u1 u2] l n v0
  show "\<exists>out. Attention_forward a tr u1 u2 x (Some v0) = Inr (Single out)
                \<and> shape out = [B, N, nat dm]"
    by auto
qed

theorem Attention_forward_return_kind_witness:
  "\<exists>a a'. Attention_init (\<lambda>n k. 0) 64 8 False 0 0 (Some 0) = Inr a
      \<and> (\<exists>out v. Attention_forward a False (\<lambda>k. 0) (\<lambda>k. 0) (tab [1, 16, 64] (\<lambda>k. 0)) None
                    = Inr (Pair out v)
             \<and> shape out = [1, 16, 64] \<and> shape v = [1, 8, 16, 8])
      \<and> Attention_init (\<lambda>n k. 0) 64 8 False 0 0 (Some 3) = Inr a'
      \<and> (\<forall>x v0 out v. Attention_forward a' False (\<lambda>k. 0) (\<lambda>k. 0) x v0 \<noteq> Inr (Pair out v))"
proof -
  obtain a where a: "Attention_init (\<lambda>n k. 0) 64 8 False 0 0 (Some 0) = Inr a"
    by (simp add: Attention_init_cases)
  obtain a' where a': "Attention_init (\<lambda>n k. 0) 64 8 False 0 0 (Some 3) = Inr a'"
    by (simp add: Attention_init_cases)
  have sh: "shape (tab [1, 16, 64] (\<lambda>k. 0)) = [1, 16, nat 64]" by simp
  have "\<forall>B N x v0. shape x = [B, N, nat 64] \<longrightarrow>
            (\<exists>out v. Attention_forward a False (\<lambda>k. 0) (\<lambda>k. 0) x v0 = Inr (Pair out v)
                \<and> shape out = [B, N, nat 64] \<and> shape v = [B, nat 8, N, nat 64 div nat 8])"
    using Attention_forward_return_kind [OF a, of False "\<lambda>k. 0" "\<lambda>k. 0"] by blast
  from this [rule_format, OF sh, of None]
  have "\<exists>out v. Attention_forward a False (\<lambda>k. 0) (\<lambda>k. 0) (tab [1, 16, 64] (\<lambda>k. 0)) None
                    = Inr (Pair out v)
             \<and> shape out = [1, 16, 64] \<and> shape v = [1, 8, 16, 8]"
    by simp
  moreover have "(0::int) < 3" by simp
  with Attention_forward_return_kind [OF a', of False "\<lambda>k. 0" "\<lambda>k. 0"]
  have "\<forall>x v0 out v. Attention_forward a' False (\<lambda>k. 0) (\<lambda>k. 0) x v0 \<noteq> Inr (Pair out v)"
    by blast
  ultimately show ?thesis using a a' by blast
qed

text \<open>
  C6. An attention module with a layer index above \<open>0\<close> called without \<open>v0\<close> never
  returns a value: the call raises, and once the attention weights have been computed
  the exception is the attribute error of \<open>None.reshape\<close> (line 52).
\<close>

theorem Attention_forward_without_v0:
  assumes "layerth a = Some l" and "0 < l"
  shows "(\<exists>e. Attention_forward a tr u1 u2 x None = Inl e)
       \<and> (\<forall>w. attention_weights a tr u1 x = Inr w \<longrightarrow>
              Attention_forward a tr u1 u2 x None = Inl AttributeError)"
proof -
  have res: "attention_res a B N C v None = Inl AttributeError" for B N C v
    using assms by (simp add: attention_res_def)
  have 2: "Attention_forward a tr u1 u2 x None = Inl AttributeError"
    if "attention_weights a tr u1 x = Inr w" for w
    using that by (cases w) (simp add: Attention_forward_def attention_pre_proj_def res)
  show ?thesis
  proof (cases "attention_weights a tr u1 x")
    case (Inl e)
    then show ?thesis by (simp add: Attention_forward_def attention_pre_proj_def)
  next
    case (Inr w)
    with 2 show ?thesis by simp
  qed
qed

theorem Attention_forward_without_v0_witness:
  "\<exists>a. Attention_init (\<lambda>n k. 0) 64 8 False 0 0 (Some 3) = Inr a
      \<and> Attention_forward a False (\<lambda>k. 0) (\<lambda>k. 0) (tab [1, 16, 64] (\<lambda>k. 0)) None
          = Inl AttributeError"
proof -
  obtain a where a: "Attention_init (\<lambda>n k. 0) 64 8 False 0 0 (Some 3) = Inr a"
    by (simp add: Attention_init_cases)
  then have l: "layerth a = Some 3"
    by (auto simp: Attention_init_cases)
  have "shape (tab [1, 16, 64] (\<lambda>k. 0)) = [1, 16, nat 64]" by simp
  from attention_weights_ok [OF a this, of False "\<lambda>k. 0"]
  obtain w where "attention_weights a False (\<lambda>k. 0) (tab [1, 16, 64] (\<lambda>k. 0)) = Inr w"
    by auto
  moreover have "(0::int) < 3" by simp
  ultimately
  have "Attention_forward a False (\<lambda>k. 0) (\<lambda>k. 0) (tab [1, 16, 64] (\<lambda>k. 0)) None
          = Inl AttributeError"
    using Attention_forward_without_v0 [OF l, of False "\<lambda>k. 0" "\<lambda>k. 0" "tab [1, 16, 64] (\<lambda>k. 0)"]
    by blast
  with a show ?thesis by blast
qed

section \<open>The adjoint convolution\<close>

lemma tab_cong: "(\<And>k. k < prod_list s \<Longrightarrow> f k = g k) \<Longrightarrow> tab s f = tab s g"
  by (simp add: tab_def)

lemma tab_data_self: "tab s (\<lambda>k. data (tab s f) ! k) = tab s f"
  by (rule tab_cong) simp

lemma idx2_bound: "i < (a::nat) \<Longrightarrow> j < b \<Longrightarrow> i * b + j < a * b"
proof -
  assume "i < a" "j < b"
  then have "i * b + j < i * b + b" by simp
  also have "\<dots> = Suc i * b" by simp
  also have "\<dots> \<le> a * b" using \<open>i < a\<close> by (intro mult_le_mono1) simp
  finally show ?thesis .
qed

lemma idx3_bound: "i < (a::nat) \<Longrightarrow> j < b \<Longrightarrow> k < c \<Longrightarrow> (i * b + j) * c + k < a * b * c"
  by (intro idx2_bound) simp_all

lemma flip2_rank3:
  assumes "shape w = [oc, ic, kk]"
  shows "\<exists>w'. flip2 w = Inr w' \<and> shape w' = [oc, ic, kk] \<and> wf_tensor w'
           \<and> (\<forall>a<oc. \<forall>i<ic. \<forall>j<kk. data w' ! ((a * ic + i) * kk + j)
                                      = data w ! ((a * ic + i) * kk + (kk - 1 - j)))"
proof -
  let ?w' = "tab [oc, ic, kk] (\<lambda>k. data w ! (k div kk * kk + (kk - 1 - k mod kk)))"
  have 1: "flip2 w = Inr ?w'"
    using assms by (simp add: flip2_def)
  have "data ?w' ! ((a * ic + i) * kk + j) = data w ! ((a * ic + i) * kk + (kk - 1 - j))"
    if "a < oc" "i < ic" "j < kk" for a i j
  proof -
    have "(a * ic + i) * kk + j < prod_list [oc, ic, kk]"
      using idx3_bound [OF that] by (simp add: mult.assoc)
    then show ?thesis using that by simp
  qed
  with 1 show ?thesis by simp
qed


lemma tab_nth_self: "wf_tensor w \<Longrightarrow> tab (shape w) (\<lambda>k. data w ! k) = w"
proof -
  assume "wf_tensor w"
  then have "map (\<lambda>k. data w ! k) [0..<prod_list (shape w)] = data w"
    using map_nth [of "data w"] by (simp add: wf_tensor_def)
  then show ?thesis by (simp add: tab_def)
qed

lemma flip2_kernel1: 
  assumes "shape w = [oc, ic, 1]" "wf_tensor w"
  shows "flip2 w = Inr w"
proof -
  have "flip2 w = Inr (tab (shape w) (\<lambda>k. data w ! k))"
    using assms(1) by (simp add: flip2_def)
  with assms(2) show ?thesis by (simp add: tab_nth_self)
qed

text \<open>
  C8. For a convolution module whose weight has shape \<open>[O, I, K]\<close>, \<open>adjoint_conv\<close> on
  every input is \<open>nn.functional.conv1d\<close> with the module's own bias, stride, padding
  and dilation and with the weight reversed along the kernel axis: the entry at kernel
  position \<open>j\<close> of the weight it uses is the entry at position \<open>K - 1 - j\<close> of the
  module's weight. That is the forward call of the module with only the weight replaced.
\<close>

theorem adjoint_conv_flipped:
  assumes "shape (conv_weight c) = [oc, ic, kk]"
  shows "\<exists>w'. flip2 (conv_weight c) = Inr w' \<and> shape w' = [oc, ic, kk]
           \<and> (\<forall>a<oc. \<forall>i<ic. \<forall>j<kk. data w' ! ((a * ic + i) * kk + j)
                        = data (conv_weight c) ! ((a * ic + i) * kk + (kk - 1 - j)))
           \<and> (\<forall>x. adjoint_conv c x = Conv1d_forward (c\<lparr>conv_weight := w'\<rparr>) x)"
proof -
  from flip2_rank3 [OF assms] obtain w' where w': "flip2 (conv_weight c) = Inr w'"
    "shape w' = [oc, ic, kk]"
    "\<forall>a<oc. \<forall>i<ic. \<forall>j<kk. data w' ! ((a * ic + i) * kk + j)
                        = data (conv_weight c) ! ((a * ic + i) * kk + (kk - 1 - j))"
    by blast
  have "adjoint_conv c x = Conv1d_forward (c\<lparr>conv_weight := w'\<rparr>) x" for x
    by (simp add: adjoint_conv_def Conv1d_forward_def w'(1))
  with w' show ?thesis by blast
qed

theorem adjoint_conv_flipped_witness:
  "\<exists>w'. flip2 (tab [1, 1, 2] (\<lambda>k. real k)) = Inr w' \<and> shape w' = [1, 1, 2]
      \<and> data w' ! 0 = 1 \<and> data w' ! 1 = 0
      \<and> (\<forall>x. adjoint_conv \<lparr>conv_weight = tab [1, 1, 2] (\<lambda>k. real k), conv_bias = None,
                              conv_stride = 1, conv_padding = 0, conv_dilation = 1\<rparr> x
             = Conv1d_forward \<lparr>conv_weight = w', conv_bias = None,
                              conv_stride = 1, conv_padding = 0, conv_dilation = 1\<rparr> x)"
proof -
  let ?c = "\<lparr>conv_weight = tab [1, 1, 2] (\<lambda>k. real k), conv_bias = None,
             conv_stride = 1, conv_padding = 0, conv_dilation = 1\<rparr>"
  have "shape (conv_weight ?c) = [1, 1, 2]" by simp
  from adjoint_conv_flipped [OF this] obtain w' where
    w': "flip2 (tab [1, 1, 2] (\<lambda>k. real k)) = Inr w'" "shape w' = [1, 1, 2]"
    "\<forall>a<1. \<forall>i<1. \<forall>j<2. data w' ! ((a * 1 + i) * 2 + j)
        = data (tab [1, 1, 2] (\<lambda>k. real k)) ! ((a * 1 + i) * 2 + (2 - 1 - j))"
    "\<forall>x. adjoint_conv ?c x = Conv1d_forward (?c\<lparr>conv_weight := w'\<rparr>) x"
    by auto
  from w'(3) [rule_format, of 0 0 0] have d0: "data w' ! 0 = 1" by (simp add: tab_def upt_rec)
  from w'(3) [rule_format, of 0 0 1] have d1: "data w' ! 1 = 0" by (simp add: tab_def upt_rec)
  from w' d0 d1 show ?thesis by auto
qed

text \<open>
  C10. In an attention module built by the constructor, \<open>g_conv\<close> has kernel size 1, the
  flip of its weight is the weight itself, and \<open>adjoint_conv\<close> on \<open>g_conv\<close> returns what
  the forward call of \<open>g_conv\<close> returns, on every input.
\<close>

theorem adjoint_conv_kernel1:
  assumes init: "Attention_init ini dm nh qb ad pd lth = Inr a"
  shows "flip2 (conv_weight (g_conv a)) = Inr (conv_weight (g_conv a))
       \<and> (\<forall>x. adjoint_conv (g_conv a) x = Conv1d_forward (g_conv a) x)"
proof -
  from init have "shape (conv_weight (g_conv a)) = [nat (dm div nh), nat (dm div nh), 1]"
     "wf_tensor (conv_weight (g_conv a))"
    by (auto simp: Attention_init_cases split: if_splits)
  then have "flip2 (conv_weight (g_conv a)) = Inr (conv_weight (g_conv a))"
    by (rule flip2_kernel1)
  then show ?thesis
    by (simp add: adjoint_conv_def Conv1d_forward_def)
qed

theorem adjoint_conv_kernel1_witness:
  "\<exists>a. Attention_init (\<lambda>n k. real k) 4 2 False 0 0 (Some 1) = Inr a
      \<and> flip2 (conv_weight (g_conv a)) = Inr (conv_weight (g_conv a))
      \<and> adjoint_conv (g_conv a) (tab [1, 2, 3] real) = Conv1d_forward (g_conv a) (tab [1, 2, 3] real)"
proof -
  obtain a where a: "Attention_init (\<lambda>n k. real k) 4 2 False 0 0 (Some 1) = Inr a"
    by (simp add: Attention_init_cases)
  from adjoint_conv_kernel1 [OF a] a show ?thesis by blast
qed

text \<open>
  The adjoint application is not the transpose application: on a weight that is not
  symmetric in its channel axes the two differ, while the adjoint and the forward
  application agree.
\<close>

lemma adjoint_conv_is_not_transpose_conv:
  "adjoint_conv \<lparr>conv_weight = tab [2, 2, 1] (\<lambda>k. if k = 1 then 1 else 0),
                  conv_bias = Some (tab [2] (\<lambda>k. 0)),
                  conv_stride = 1, conv_padding = 0, conv_dilation = 1\<rparr>
       (tab [1, 2, 1] (\<lambda>k. if k = 0 then 1 else 0))
     = Inr \<lparr>shape = [1, 2, 1], data = [0, 0]\<rparr>
   \<and> transpose_conv \<lparr>conv_weight = tab [2, 2, 1] (\<lambda>k. if k = 1 then 1 else 0),
                  conv_bias = Some (tab [2] (\<lambda>k. 0)),
                  conv_stride = 1, conv_padding = 0, conv_dilation = 1\<rparr>
       (tab [1, 2, 1] (\<lambda>k. if k = 0 then 1 else 0))
     = Inr \<lparr>shape = [1, 2, 1], data = [0, 1]\<rparr>"
  by code_simp

section \<open>Shapes through the block and the model\<close>

lemma idx_div: "c < (C::nat) \<Longrightarrow> (q * C + c) div C = q" by simp
lemma idx_mod: "c < (C::nat) \<Longrightarrow> (q * C + c) mod C = c" by simp

lemma idx3_div2: "n < (N::nat) \<Longrightarrow> c < C \<Longrightarrow> ((b * N + n) * C + c) div (N * C) = b"
proof -
  assume n: "n < N" and c: "c < C"
  have "((b * N + n) * C + c) div (N * C) = (((b * N + n) * C + c) div C) div N"
    by (simp add: div_mult2_eq mult.commute)
  also have "\<dots> = b" using n c by simp
  finally show ?thesis .
qed

lemma setitem_cls_frame:
  assumes set: "setitem_cls x val = Inr x'" and sh: "shape x = [B, N, C]"
  shows "shape x' = [B, N, C] \<and> wf_tensor x'
       \<and> (\<forall>b<B. \<forall>n<N. \<forall>c<C. 0 < n \<longrightarrow>
             data x' ! ((b * N + n) * C + c) = data x ! ((b * N + n) * C + c))
       \<and> (\<forall>b<B. \<forall>c<C. data x' ! ((b * N) * C + c)
             = data val ! bcast_index (dropWhile (\<lambda>d. d = 1) (shape val)) [B, C] (b * C + c))"
proof -
  let ?vs = "dropWhile (\<lambda>d. d = 1) (shape val)"
  let ?f = "\<lambda>k. if (k div C) mod N = 0
                 then data val ! bcast_index ?vs [B, C] ((k div (N * C)) * C + k mod C)
                 else data x ! k"
  from set sh have x': "x' = tab [B, N, C] ?f"
    by (simp add: setitem_cls_def Let_def del: One_nat_def split: if_splits)
  have frame: "data x' ! ((b * N + n) * C + c) = data x ! ((b * N + n) * C + c)"
    if "b < B" "n < N" "c < C" "0 < n" for b n c
  proof -
    have "(b * N + n) * C + c < prod_list [B, N, C]"
      using idx3_bound [OF that(1-3)] by (simp add: mult.assoc)
    then have "data x' ! ((b * N + n) * C + c) = ?f ((b * N + n) * C + c)"
      unfolding x' by (rule nth_data_tab)
    also have "\<dots> = data x ! ((b * N + n) * C + c)"
      using that by simp
    finally show ?thesis .
  qed
  have cls: "data x' ! ((b * N) * C + c) = data val ! bcast_index ?vs [B, C] (b * C + c)"
    if "b < B" "c < C" for b c
  proof -
    from set sh have n: "0 < N" by (auto simp: setitem_cls_def Let_def split: if_splits)
    have "(b * N + 0) * C + c < prod_list [B, N, C]"
      using idx3_bound [OF that(1) n that(2)] by (simp add: mult.assoc)
    then have "data x' ! ((b * N + 0) * C + c) = ?f ((b * N + 0) * C + c)"
      unfolding x' by (rule nth_data_tab)
    also have "\<dots> = data val ! bcast_index ?vs [B, C] (b * C + c)"
      using that n idx3_div2 [OF n that(2), of b] by simp
    finally show ?thesis by simp
  qed
  from x' frame cls show ?thesis by simp
qed

lemma LayerNorm_forward_ok:
  "shape x \<noteq> [] \<Longrightarrow> last (shape x) = ln_dim n \<Longrightarrow>
   \<exists>y. LayerNorm_forward n x = Inr y \<and> shape y = shape x \<and> wf_tensor y"
  by (simp add: LayerNorm_forward_def)

lemma new_LayerNorm_dim: "new_LayerNorm ini name n eps = Inr lnm \<Longrightarrow> ln_dim lnm = nat n"
  by (auto simp: new_LayerNorm_def split: if_splits)

lemma linear_2:
  "shape w = [out, c] \<Longrightarrow> shape x = [a, c] \<Longrightarrow> (case bs of None \<Rightarrow> True | Some bt \<Rightarrow> shape bt = [out]) \<Longrightarrow>
   \<exists>t'. linear x w bs = Inr t' \<and> shape t' = [a, out] \<and> wf_tensor t'"
  by (simp add: linear_def)

lemma new_Linear_shapes:
  "new_Linear ini name inn out wb = Inr l \<Longrightarrow>
   shape (lin_weight l) = [nat out, nat inn]
   \<and> (case lin_bias l of None \<Rightarrow> True | Some bt \<Rightarrow> shape bt = [nat out])"
  by (auto simp: new_Linear_def split: if_splits)

lemma Linear_forward_3:
  assumes "new_Linear ini name inn out wb = Inr l" "shape x = [a, b, nat inn]"
  shows "\<exists>y. Linear_forward l x = Inr y \<and> shape y = [a, b, nat out] \<and> wf_tensor y"
  using new_Linear_shapes [OF assms(1)] linear_3 [of "lin_weight l" "nat out" "nat inn" x a b "lin_bias l"] assms(2)
  by (simp add: Linear_forward_def)

lemma Linear_forward_2:
  assumes "new_Linear ini name inn out wb = Inr l" "shape x = [a, nat inn]"
  shows "\<exists>y. Linear_forward l x = Inr y \<and> shape y = [a, nat out] \<and> wf_tensor y"
  using new_Linear_shapes [OF assms(1)] linear_2 [of "lin_weight l" "nat out" "nat inn" x a "lin_bias l"] assms(2)
  by (simp add: Linear_forward_def)

lemma Mlp_forward_ok:
  assumes init: "Mlp_init ini dm hf af dp = Inr m" and x: "shape x = [B, N, nat dm]"
  shows "\<exists>y. Mlp_forward m tr u1 u2 x = Inr y \<and> shape y = [B, N, nat dm] \<and> wf_tensor y"
proof -
  let ?h = "if hf = 0 then dm else hf"
  from init obtain l1 l2 where l: "new_Linear ini ''mlp.fc1'' dm ?h True = Inr l1"
      "new_Linear ini ''mlp.fc2'' ?h dm True = Inr l2" "fc1 m = l1" "fc2 m = l2"
    by (auto simp: Mlp_init_def Let_def ebind_eq_Inr)
  obtain x1 where x1: "Linear_forward l1 x = Inr x1" "shape x1 = [B, N, nat ?h]"
    using Linear_forward_3 [OF l(1) x] by blast
  let ?x3 = "dropout (mlp_drop m) tr u1 (tab (shape x1) (\<lambda>k. act m (data x1 ! k)))"
  have "shape ?x3 = [B, N, nat ?h]" by (simp add: x1)
  from Linear_forward_3 [OF l(2) this]
  obtain x4 where x4: "Linear_forward l2 ?x3 = Inr x4" "shape x4 = [B, N, nat dm]" "wf_tensor x4"
    by blast
  show ?thesis
    using x1 x4 l(3,4) by (simp add: Mlp_forward_def Let_def)
qed

lemma shape_drop_path_fn [simp]: "shape (drop_path_fn x p tr u) = shape x"
  by (simp add: drop_path_fn_def)

lemma shape_Block_drop_path [simp]: "shape (Block_drop_path b tr u x) = shape x"
  by (simp add: Block_drop_path_def)

lemma tensor_add_same:
  "shape x = shape y \<Longrightarrow> \<exists>t'. tensor_add x y = Inr t' \<and> shape t' = shape x \<and> wf_tensor t'"
  unfolding tensor_add_def by (rule binop_same)

lemma Block_init_Inr:
  assumes "Block_init ini eps dm nh r qb dp adp dpp af lth = Inr b"
  shows "\<exists>n1 att n2 ml.
           new_LayerNorm ini ''norm1'' dm eps = Inr n1
         \<and> Attention_init (\<lambda>n. ini (''attn.'' @ n)) dm nh qb adp dp lth = Inr att
         \<and> new_LayerNorm ini ''norm2'' dm eps = Inr n2
         \<and> Mlp_init ini dm (py_int (real_of_int dm * r)) af dp = Inr ml
         \<and> b = \<lparr>norm1 = n1, attn = att, drop_path = dpp, norm2 = n2, mlp = ml, blk_layerth = lth\<rparr>"
  using assms by (auto simp: Block_init_def ebind_eq_Inr)

lemma Block_rest_ok:
  assumes n2: "ln_dim (norm2 b) = nat dm" and ml: "Mlp_init ini dm hf af dp = Inr (mlp b)"
      and x: "shape x = [B, N, nat dm]" and xa: "shape xa = [B, N, nat dm]"
  shows "\<exists>y. Block_rest b tr nz x xa = Inr y \<and> shape y = [B, N, nat dm] \<and> wf_tensor y"
proof -
  obtain x1 where x1: "tensor_add x (Block_drop_path b tr (nz_path1 nz) xa) = Inr x1"
      "shape x1 = [B, N, nat dm]"
    using tensor_add_same [of x "Block_drop_path b tr (nz_path1 nz) xa"] x xa by auto
  obtain x1n where x1n: "LayerNorm_forward (norm2 b) x1 = Inr x1n" "shape x1n = [B, N, nat dm]"
    using LayerNorm_forward_ok [of x1 "norm2 b"] x1(2) n2 by auto
  obtain mo where mo: "Mlp_forward (mlp b) tr (nz_mlp1 nz) (nz_mlp2 nz) x1n = Inr mo"
      "shape mo = [B, N, nat dm]"
    using Mlp_forward_ok [OF ml x1n(2)] by blast
  obtain y where "tensor_add x1 (Block_drop_path b tr (nz_path2 nz) mo) = Inr y"
      "shape y = [B, N, nat dm]" "wf_tensor y"
    using tensor_add_same [of x1 "Block_drop_path b tr (nz_path2 nz) mo"] x1(2) mo(2) by auto
  then show ?thesis
    using x1 x1n mo by (simp add: Block_rest_def)
qed

lemma Block_forward_ok:
  assumes init: "Block_init ini eps dm nh r qb dp adp dpp af (Some l) = Inr b"
      and x: "shape x = [B, N, nat dm]"
      and later: "0 < l \<longrightarrow> 0 < N \<and> (\<exists>v0t. v0 = Some v0t \<and> prod_list (shape v0t) = B * N * nat dm)"
      and l0: "0 \<le> l"
  shows "\<exists>out v. Block_forward b tr nz x v0 = Inr (if l = 0 then Pair out v else Single out)
           \<and> shape out = [B, N, nat dm] \<and> shape v = [B, nat nh, N, nat (dm div nh)]
           \<and> wf_tensor out \<and> wf_tensor v"
proof -
  from Block_init_Inr [OF init] obtain n1 att n2 ml where
    p: "new_LayerNorm ini ''norm1'' dm eps = Inr n1"
       "Attention_init (\<lambda>n. ini (''attn.'' @ n)) dm nh qb adp dp (Some l) = Inr att"
       "new_LayerNorm ini ''norm2'' dm eps = Inr n2"
       "Mlp_init ini dm (py_int (real_of_int dm * r)) af dp = Inr ml"
    and b: "norm1 b = n1" "attn b = att" "norm2 b = n2" "mlp b = ml" "blk_layerth b = Some l"
    by auto
  obtain xn where xn: "LayerNorm_forward (norm1 b) x = Inr xn" "shape xn = [B, N, nat dm]"
    using LayerNorm_forward_ok [of x n1] x new_LayerNorm_dim [OF p(1)] b(1) by auto
  have ml: "Mlp_init ini dm (py_int (real_of_int dm * r)) af dp = Inr (mlp b)"
    using p(4) b(4) by simp
  have n2: "ln_dim (norm2 b) = nat dm"
    using new_LayerNorm_dim [OF p(3)] b(3) by simp
  show ?thesis
  proof (cases "l = 0")
    case True
    from Attention_forward_ok [OF p(2) xn(2), of None tr "nz_attn nz" "nz_proj nz"] True
    obtain out v where a: "Attention_forward att tr (nz_attn nz) (nz_proj nz) xn None = Inr (Pair out v)"
        "shape out = [B, N, nat dm]" "shape v = [B, nat nh, N, nat (dm div nh)]" "wf_tensor v"
      by auto
    from Block_rest_ok [OF n2 ml x a(2), of tr nz]
    obtain y where y: "Block_rest b tr nz x out = Inr y" "shape y = [B, N, nat dm]" "wf_tensor y"
      by blast
    have "Block_forward b tr nz x v0 = Inr (Pair y v)"
      using True xn a y b by (simp add: Block_forward_def unpack_pair_def)
    with True y a show ?thesis by auto
  next
    case False
    with l0 have lp: "0 < l" by simp
    from Attention_forward_ok [OF p(2) xn(2) later l0, of tr "nz_attn nz" "nz_proj nz"] False
    obtain out v where a: "Attention_forward att tr (nz_attn nz) (nz_proj nz) xn v0 = Inr (Single out)"
        "shape out = [B, N, nat dm]" "shape v = [B, nat nh, N, nat (dm div nh)]" "wf_tensor v"
      by auto
    from Block_rest_ok [OF n2 ml x a(2), of tr nz]
    obtain y where y: "Block_rest b tr nz x out = Inr y" "shape y = [B, N, nat dm]" "wf_tensor y"
      by blast
    have "Block_forward b tr nz x v0 = Inr (Single y)"
      using False xn a y b by (simp add: Block_forward_def)
    with False y a show ?thesis by auto
  qed
qed

lemma build_blocks_Inr:
  "build_blocks mk js = Inr bs \<Longrightarrow>
   length bs = length js \<and> (\<forall>j<length js. mk (js ! j) = Inr (bs ! j))"
proof (induction js arbitrary: bs)
  case Nil
  then show ?case by simp
next
  case (Cons i js)
  from Cons.prems obtain b bs' where b: "mk i = Inr b" "build_blocks mk js = Inr bs'" "bs = b # bs'"
    by (auto simp: ebind_eq_Inr)
  from Cons.IH [OF b(2)] b(1,3) show ?case
    by (auto simp: nth_Cons split: nat.splits)
qed

lemma Attention_init_dims:
  assumes "Attention_init ini dm nh qb ad pd lth = Inr a"
  shows "0 < dm \<and> 0 < nh \<and> nat nh * nat (dm div nh) = nat dm"
proof -
  from assms have pos: "0 < dm" "0 < nh" "dm mod nh = 0"
    by (auto simp: Attention_init_cases split: if_splits)
  then have "0 \<le> dm div nh" by (simp add: pos_imp_zdiv_nonneg_iff)
  with pos have "nat nh * nat (dm div nh) = nat dm"
    by (metis less_imp_le mod_0_imp_dvd dvd_mult_div_cancel nat_mult_distrib)
  with pos show ?thesis by simp
qed

lemma select1_3:
  "shape t = [a, b, c] \<Longrightarrow> j < b \<Longrightarrow>
   \<exists>y. select1 t j = Inr y \<and> shape y = [a, c] \<and> wf_tensor y"
  by (simp add: select1_def Let_def)

lemma setitem_cls_ok:
  assumes "shape x = [B, N, C]" "0 < N" "shape val = [B, C]"
  shows "\<exists>x'. setitem_cls x val = Inr x'"
  using assms by (cases "B = 1"; cases "C = 1") (simp_all add: setitem_cls_def Let_def)

lemma expand0_cls:
  "shape t = [1, 1, e] \<Longrightarrow> \<exists>y. expand0 t b = Inr y \<and> shape y = [b, 1, e]"
  by (simp add: expand0_def)

lemma cat1_2:
  assumes "shape c = [b, 1, e]" "shape x = [b, p, e]"
  shows "\<exists>y. cat1 [c, x] = Inr y \<and> shape y = [b, p + 1, e]"
  using assms by (simp add: cat1_def Let_def)

lemma cat1_3:
  assumes "shape c = [b, 1, e]" "shape d = [b, 1, e]" "shape x = [b, p, e]"
  shows "\<exists>y. cat1 [c, d, x] = Inr y \<and> shape y = [b, p + 2, e]"
  using assms by (simp add: cat1_def Let_def)

lemma tensor_add_pos:
  assumes "shape x = [b, n, e]" "shape p = [1, n, e]"
  shows "\<exists>y. tensor_add x p = Inr y \<and> shape y = [b, n, e]"
  using assms by (simp add: tensor_add_def binop_def broadcast_shapes_def)

lemma VisionTransformer_init_Inr:
  assumes init: "VisionTransformer_init cfg vini bini = Inr m"
  shows "0 \<le> cfg_embed_dim cfg \<and> 0 \<le> cfg_depth cfg
       \<and> length (blocks m) = nat (cfg_depth cfg)
       \<and> (\<forall>i<nat (cfg_depth cfg).
             Block_init (bini i) (1 / 10 ^ 6) (cfg_embed_dim cfg) (cfg_num_heads cfg)
               (cfg_mlp_ratio cfg) (cfg_qkv_bias cfg) (cfg_drop_rate cfg) (cfg_attn_drop_rate cfg)
               (dpr (cfg_drop_path_rate cfg) (nat (cfg_depth cfg)) i) (cfg_act_layer cfg)
               (Some (int i)) = Inr (blocks m ! i))
       \<and> new_LayerNorm vini ''norm'' (cfg_embed_dim cfg) (1 / 10 ^ 6) = Inr (vt_norm m)
       \<and> shape (cls_token m) = [1, 1, nat (cfg_embed_dim cfg)]
       \<and> (case dist_token m of None \<Rightarrow> \<not> cfg_distilled cfg
            | Some d \<Rightarrow> cfg_distilled cfg \<and> shape d = [1, 1, nat (cfg_embed_dim cfg)])
       \<and> shape (pos_embed m)
            = [1, cfg_num_patches cfg + (if cfg_distilled cfg then 2 else 1), nat (cfg_embed_dim cfg)]
       \<and> patch_embed m = cfg_patch_embed cfg \<and> pos_drop m = cfg_drop_rate cfg
       \<and> new_head vini ''head'' (cfg_num_classes cfg) (num_features m) (cfg_num_classes cfg)
            = Inr (head m)
       \<and> new_head vini ''reverse_head'' (cfg_num_classes cfg) (cfg_num_classes cfg) (cfg_embed_dim cfg)
            = Inr (reverse_head m)
       \<and> (pre_logits m = PIdentity \<and> num_features m = cfg_embed_dim cfg
            \<or> (\<exists>l. new_Linear vini ''pre_logits.fc'' (cfg_embed_dim cfg) (num_features m) True = Inr l
                   \<and> pre_logits m = PSequential l \<and> \<not> cfg_distilled cfg))
       \<and> (case head_dist m of None \<Rightarrow> \<not> cfg_distilled cfg
            | Some h \<Rightarrow> cfg_distilled cfg
                \<and> new_head vini ''head_dist'' (cfg_num_classes cfg) (cfg_embed_dim cfg)
                     (cfg_num_classes cfg) = Inr h)"
proof -
  let ?e = "cfg_embed_dim cfg"
  from init obtain en pd dn bs nm nf pl h rh hdist where
    s: "to_size ?e = Inr en" "new_Dropout (cfg_drop_rate cfg) = Inr pd"
       "to_size (cfg_depth cfg) = Inr dn"
       "build_blocks
               (\<lambda>i. Block_init (bini i) (1 / 10 ^ 6) ?e (cfg_num_heads cfg) (cfg_mlp_ratio cfg)
                       (cfg_qkv_bias cfg) (cfg_drop_rate cfg) (cfg_attn_drop_rate cfg)
                       (dpr (cfg_drop_path_rate cfg) dn i) (cfg_act_layer cfg) (Some (int i)))
               [0..<dn] = Inr bs"
       "new_LayerNorm vini ''norm'' ?e (1 / 10 ^ 6) = Inr nm"
       "(case cfg_representation_size cfg of
               None \<Rightarrow> Inr (?e, PIdentity)
             | Some r \<Rightarrow>
                 if r \<noteq> 0 \<and> \<not> cfg_distilled cfg
                 then ebind (new_Linear vini ''pre_logits.fc'' ?e r True)
                        (\<lambda>l. Inr (r, PSequential l))
                 else Inr (?e, PIdentity)) = Inr (nf, pl)"
       "new_head vini ''head'' (cfg_num_classes cfg) nf (cfg_num_classes cfg) = Inr h"
       "new_head vini ''reverse_head'' (cfg_num_classes cfg) (cfg_num_classes cfg) ?e = Inr rh"
       "(if cfg_distilled cfg
             then ebind (new_head vini ''head_dist'' (cfg_num_classes cfg) ?e (cfg_num_classes cfg))
                    (\<lambda>hd. Inr (Some hd))
             else Inr None) = Inr hdist"
    and m: "blocks m = bs" "vt_norm m = nm" "pre_logits m = pl" "num_features m = nf"
       "head m = h" "reverse_head m = rh" "head_dist m = hdist"
       "shape (cls_token m) = [1, 1, en]"
       "dist_token m = (if cfg_distilled cfg then Some (tab [1, 1, en] (vini ''dist_token'')) else None)"
       "shape (pos_embed m) = [1, cfg_num_patches cfg + (if cfg_distilled cfg then 2 else 1), en]"
       "patch_embed m = cfg_patch_embed cfg" "pos_drop m = pd"
    unfolding VisionTransformer_init_def Let_def
    by (auto simp: ebind_eq_Inr split: if_splits)
  from s(1) have e: "0 \<le> ?e" "en = nat ?e" by (auto simp: to_size_def split: if_splits)
  from s(3) have d: "0 \<le> cfg_depth cfg" "dn = nat (cfg_depth cfg)"
    by (auto simp: to_size_def split: if_splits)
  from s(2) have pd: "pd = cfg_drop_rate cfg" by (auto simp: new_Dropout_def split: if_splits)
  from build_blocks_Inr [OF s(4)] have bs: "length bs = dn"
    "\<forall>i<dn. Block_init (bini i) (1 / 10 ^ 6) ?e (cfg_num_heads cfg) (cfg_mlp_ratio cfg)
                       (cfg_qkv_bias cfg) (cfg_drop_rate cfg) (cfg_attn_drop_rate cfg)
                       (dpr (cfg_drop_path_rate cfg) dn i) (cfg_act_layer cfg) (Some (int i))
              = Inr (bs ! i)"
    by auto
  from s(6) have pl: "pl = PIdentity \<and> nf = ?e
            \<or> (\<exists>l. new_Linear vini ''pre_logits.fc'' ?e nf True = Inr l
                   \<and> pl = PSequential l \<and> \<not> cfg_distilled cfg)"
    by (auto simp: ebind_eq_Inr split: option.splits if_splits)
  from s(9) have hd: "(case hdist of None \<Rightarrow> \<not> cfg_distilled cfg
            | Some h \<Rightarrow> cfg_distilled cfg
                \<and> new_head vini ''head_dist'' (cfg_num_classes cfg) ?e (cfg_num_classes cfg) = Inr h)"
    by (auto simp: ebind_eq_Inr split: option.splits if_splits)
  have dt: "(case dist_token m of None \<Rightarrow> \<not> cfg_distilled cfg
            | Some d \<Rightarrow> cfg_distilled cfg \<and> shape d = [1, 1, nat ?e])"
    using m(9) e(2) by simp
  show ?thesis
    using e d pd bs pl hd dt s(5,7,8) m by simp
qed

lemma head_forward_ok:
  assumes "new_head ini name ncls inn out = Inr h" "0 < ncls" "shape x = [B, nat inn]"
  shows "\<exists>y. head_forward h x = Inr y \<and> shape y = [B, nat out]"
proof -
  from assms(1,2) obtain l where l: "new_Linear ini name inn out True = Inr l" "h = HLinear l"
    by (auto simp: new_head_def ebind_eq_Inr)
  from Linear_forward_2 [OF l(1) assms(3)] l(2) show ?thesis
    by (auto simp: head_forward_def)
qed

lemma mid_class_prediction_ok:
  assumes init: "VisionTransformer_init cfg vini bini = Inr m"
      and ncls: "0 < cfg_num_classes cfg"
      and y: "shape y = [B, N, nat (cfg_embed_dim cfg)]" and n: "0 < N"
  shows "\<exists>mid. mid_class_prediction m y = Inr mid \<and> shape mid = [B, nat (cfg_num_classes cfg)]"
proof -
  note i = VisionTransformer_init_Inr [OF init]
  let ?E = "nat (cfg_embed_dim cfg)"
  have nd: "ln_dim (vt_norm m) = ?E" using i new_LayerNorm_dim by blast
  obtain xn where xn: "LayerNorm_forward (vt_norm m) y = Inr xn" "shape xn = [B, N, ?E]"
    using LayerNorm_forward_ok [of y "vt_norm m"] y nd by auto
  obtain c where c: "select1 xn 0 = Inr c" "shape c = [B, ?E]"
    using select1_3 [OF xn(2) n] by blast
  have "\<exists>f. pre_logits_forward (pre_logits m) c = Inr f \<and> shape f = [B, nat (num_features m)]"
  proof -
    from i consider "pre_logits m = PIdentity" "num_features m = cfg_embed_dim cfg"
      | l where "new_Linear vini ''pre_logits.fc'' (cfg_embed_dim cfg) (num_features m) True = Inr l"
          "pre_logits m = PSequential l"
      by blast
    then show ?thesis
    proof cases
      case 1
      with c show ?thesis by (simp add: pre_logits_forward_def)
    next
      case 2
      from Linear_forward_2 [OF 2(1) c(2)] 2(2) show ?thesis
        by (auto simp: pre_logits_forward_def)
    qed
  qed
  then obtain f where f: "pre_logits_forward (pre_logits m) c = Inr f"
      "shape f = [B, nat (num_features m)]" by blast
  have h: "new_head vini ''head'' (cfg_num_classes cfg) (num_features m) (cfg_num_classes cfg)
            = Inr (head m)" using i by blast
  from head_forward_ok [OF h ncls f(2)]
  obtain mid where "head_forward (head m) f = Inr mid" "shape mid = [B, nat (cfg_num_classes cfg)]"
    by blast
  with xn c f show ?thesis by (simp add: mid_class_prediction_def)
qed

lemma feedback_ok:
  assumes init: "VisionTransformer_init cfg vini bini = Inr m"
      and ncls: "0 < cfg_num_classes cfg"
      and y: "shape y = [B, N, nat (cfg_embed_dim cfg)]" and n: "0 < N"
  shows "\<exists>x'. feedback m y = Inr x' \<and> shape x' = [B, N, nat (cfg_embed_dim cfg)]"
proof -
  note i = VisionTransformer_init_Inr [OF init]
  obtain mid where mid: "mid_class_prediction m y = Inr mid"
      "shape mid = [B, nat (cfg_num_classes cfg)]"
    using mid_class_prediction_ok [OF init ncls y n] by blast
  have h: "new_head vini ''reverse_head'' (cfg_num_classes cfg) (cfg_num_classes cfg)
             (cfg_embed_dim cfg) = Inr (reverse_head m)" using i by blast
  from head_forward_ok [OF h ncls mid(2)]
  obtain rv where rv: "head_forward (reverse_head m) mid = Inr rv"
      "shape rv = [B, nat (cfg_embed_dim cfg)]" by blast
  from setitem_cls_ok [OF y n rv(2)] obtain x' where x': "setitem_cls y rv = Inr x'" by blast
  from setitem_cls_frame [OF x' y] have "shape x' = [B, N, nat (cfg_embed_dim cfg)]" by blast
  with mid rv x' show ?thesis by (simp add: feedback_def)
qed

lemma feedback_loop_ok:
  assumes init: "VisionTransformer_init cfg vini bini = Inr m"
      and ncls: "0 < cfg_num_classes cfg"
      and n: "0 < N"
      and v0: "prod_list (shape v0) = B * N * nat (cfg_embed_dim cfg)"
  shows "\<forall>i\<in>set js. 0 < i \<and> i < length (blocks m) \<Longrightarrow>
         shape x = [B, N, nat (cfg_embed_dim cfg)] \<Longrightarrow>
         \<exists>x'. feedback_loop m tr nzb v0 js x = Inr x' \<and> shape x' = [B, N, nat (cfg_embed_dim cfg)]"
proof (induction js arbitrary: x)
  case Nil
  then show ?case by simp
next
  case (Cons i js)
  note ii = VisionTransformer_init_Inr [OF init]
  from Cons.prems(1) have i: "0 < i" "i < length (blocks m)" by auto
  with ii have bi: "Block_init (bini i) (1 / 10 ^ 6) (cfg_embed_dim cfg) (cfg_num_heads cfg)
               (cfg_mlp_ratio cfg) (cfg_qkv_bias cfg) (cfg_drop_rate cfg) (cfg_attn_drop_rate cfg)
               (dpr (cfg_drop_path_rate cfg) (nat (cfg_depth cfg)) i) (cfg_act_layer cfg)
               (Some (int i)) = Inr (blocks m ! i)"
    by simp
  have "0 < int i \<longrightarrow> 0 < N \<and> (\<exists>v0t. Some v0 = Some v0t
          \<and> prod_list (shape v0t) = B * N * nat (cfg_embed_dim cfg))"
    using n v0 by simp
  from Block_forward_ok [OF bi Cons.prems(2) this, of tr "nzb i"] i(1)
  obtain y where y: "Block_forward (blocks m ! i) tr (nzb i) x (Some v0) = Inr (Single y)"
      "shape y = [B, N, nat (cfg_embed_dim cfg)]"
    by auto
  from feedback_ok [OF init ncls y(2) n] obtain x1 where
    x1: "feedback m y = Inr x1" "shape x1 = [B, N, nat (cfg_embed_dim cfg)]" by blast
  from Cons.prems(1) have "\<forall>i\<in>set js. 0 < i \<and> i < length (blocks m)" by simp
  from Cons.IH [OF this x1(2)] obtain x' where
    "feedback_loop m tr nzb v0 js x1 = Inr x'" "shape x' = [B, N, nat (cfg_embed_dim cfg)]"
    by blast
  with i y x1 show ?case by (simp add: get_block_def)
qed

lemma embed_tokens_ok:
  assumes init: "VisionTransformer_init cfg vini bini = Inr m"
      and pe: "cfg_patch_embed cfg x = Inr x1"
      and x1: "shape x1 = [B, cfg_num_patches cfg, nat (cfg_embed_dim cfg)]"
  shows "\<exists>x4. embed_tokens m tr u x = Inr x4
     \<and> shape x4 = [B, cfg_num_patches cfg + (if cfg_distilled cfg then 2 else 1),
                    nat (cfg_embed_dim cfg)]"
proof -
  note i = VisionTransformer_init_Inr [OF init]
  let ?E = "nat (cfg_embed_dim cfg)" and ?P = "cfg_num_patches cfg"
  let ?N = "?P + (if cfg_distilled cfg then 2 else 1)"
  have pem: "patch_embed m x = Inr x1" using i pe by simp
  have cs: "shape (cls_token m) = [1, 1, ?E]" using i by blast
  obtain cls where cls: "expand0 (cls_token m) B = Inr cls" "shape cls = [B, 1, ?E]"
    using expand0_cls [OF cs] by blast
  have "\<exists>x2. (case dist_token m of
                   None \<Rightarrow> cat1 [cls, x1]
                 | Some d \<Rightarrow> ebind (expand0 d B) (\<lambda>de. cat1 [cls, de, x1])) = Inr x2
             \<and> shape x2 = [B, ?N, ?E]"
  proof (cases "dist_token m")
    case None
    with i have "\<not> cfg_distilled cfg" by simp
    with None cat1_2 [OF cls(2) x1] show ?thesis by simp
  next
    case (Some d)
    with i have d: "cfg_distilled cfg" "shape d = [1, 1, ?E]" by simp_all
    obtain de where de: "expand0 d B = Inr de" "shape de = [B, 1, ?E]"
      using expand0_cls [OF d(2)] by blast
    from Some d(1) de cat1_3 [OF cls(2) de(2) x1] show ?thesis by simp
  qed
  then obtain x2 where x2: "(case dist_token m of
                   None \<Rightarrow> cat1 [cls, x1]
                 | Some d \<Rightarrow> ebind (expand0 d B) (\<lambda>de. cat1 [cls, de, x1])) = Inr x2"
      "shape x2 = [B, ?N, ?E]" by blast
  have ps: "shape (pos_embed m) = [1, ?N, ?E]" using i by blast
  obtain x3 where x3: "tensor_add x2 (pos_embed m) = Inr x3" "shape x3 = [B, ?N, ?E]"
    using tensor_add_pos [OF x2(2) ps] by blast
  show ?thesis
    using pem x1 cls x2 x3 by (simp add: embed_tokens_def)
qed

lemma Block_init_layerth:
  "Block_init ini eps dm nh r qb dp adp dpp af lth = Inr b \<Longrightarrow> blk_layerth b = lth"
  by (auto dest: Block_init_Inr)

lemma VisionTransformer_init_block:
  assumes "VisionTransformer_init cfg vini bini = Inr m" "i < length (blocks m)"
  shows "Block_init (bini i) (1 / 10 ^ 6) (cfg_embed_dim cfg) (cfg_num_heads cfg)
               (cfg_mlp_ratio cfg) (cfg_qkv_bias cfg) (cfg_drop_rate cfg) (cfg_attn_drop_rate cfg)
               (dpr (cfg_drop_path_rate cfg) (nat (cfg_depth cfg)) i) (cfg_act_layer cfg)
               (Some (int i)) = Inr (blocks m ! i)"
  using VisionTransformer_init_Inr [OF assms(1)] assms(2) by simp

lemma forward_features_ok:
  assumes init: "VisionTransformer_init cfg vini bini = Inr m"
      and ncls: "0 < cfg_num_classes cfg"
      and depth: "11 \<le> cfg_depth cfg"
      and pe: "cfg_patch_embed cfg x = Inr x1"
      and x1: "shape x1 = [B, cfg_num_patches cfg, nat (cfg_embed_dim cfg)]"
  shows "\<exists>f. forward_features m tr nz x = Inr f
     \<and> (case f of
           Feat t \<Rightarrow> \<not> cfg_distilled cfg \<and> shape t = [B, nat (num_features m)]
         | FeatPair a b \<Rightarrow> cfg_distilled cfg \<and> shape a = [B, nat (cfg_embed_dim cfg)]
                             \<and> shape b = [B, nat (cfg_embed_dim cfg)])"
proof -
  note i = VisionTransformer_init_Inr [OF init]
  let ?E = "nat (cfg_embed_dim cfg)" and ?P = "cfg_num_patches cfg"
  let ?N = "?P + (if cfg_distilled cfg then 2 else 1)"
  let ?nh = "cfg_num_heads cfg"
  have n: "0 < ?N" by simp
  from i depth have len: "11 \<le> length (blocks m)" by simp
  obtain x4 where x4: "embed_tokens m tr (nz_pos nz) x = Inr x4" "shape x4 = [B, ?N, ?E]"
    using embed_tokens_ok [OF init pe x1] by blast
  from len have len0: "0 < length (blocks m)" by (cases "blocks m") auto
  from len0 have gb0: "get_block m 0 = Inr (blocks m ! 0)" by (simp add: get_block_def)
  have b0: "Block_init (bini 0) (1 / 10 ^ 6) (cfg_embed_dim cfg) ?nh
               (cfg_mlp_ratio cfg) (cfg_qkv_bias cfg) (cfg_drop_rate cfg) (cfg_attn_drop_rate cfg)
               (dpr (cfg_drop_path_rate cfg) (nat (cfg_depth cfg)) 0) (cfg_act_layer cfg)
               (Some (int 0)) = Inr (blocks m ! 0)"
    by (rule VisionTransformer_init_block [OF init len0])
  from Block_forward_ok [OF b0 x4(2), of None tr "nz_blocks nz 0"]
  obtain x5 v0 where r0: "Block_forward (blocks m ! 0) tr (nz_blocks nz 0) x4 None = Inr (Pair x5 v0)"
      "shape x5 = [B, ?N, ?E]" "shape v0 = [B, nat ?nh, ?N, nat (cfg_embed_dim cfg div ?nh)]"
    by auto
  from Block_init_Inr [OF b0] obtain att where
    "Attention_init (\<lambda>n. bini 0 (''attn.'' @ n)) (cfg_embed_dim cfg) ?nh (cfg_qkv_bias cfg)
       (cfg_attn_drop_rate cfg) (cfg_drop_rate cfg) (Some (int 0)) = Inr att"
    by blast
  from Attention_init_dims [OF this]
  have "nat ?nh * nat (cfg_embed_dim cfg div ?nh) = ?E" by blast
  then have v0: "prod_list (shape v0) = B * ?N * ?E"
    by (simp add: r0(3) mult.assoc [symmetric])
  have "\<forall>i\<in>set [1..<11]. 0 < i \<and> i < length (blocks m)" using len by auto
  from feedback_loop_ok [OF init ncls n v0 this r0(2), of tr "nz_blocks nz"]
  obtain x6 where x6: "feedback_loop m tr (nz_blocks nz) v0 [1..<11] x5 = Inr x6"
      "shape x6 = [B, ?N, ?E]" by blast
  have nd: "ln_dim (vt_norm m) = ?E" using i new_LayerNorm_dim by blast
  obtain x7 where x7: "LayerNorm_forward (vt_norm m) x6 = Inr x7" "shape x7 = [B, ?N, ?E]"
    using LayerNorm_forward_ok [of x6 "vt_norm m"] x6(2) nd by auto
  obtain c where c: "select1 x7 0 = Inr c" "shape c = [B, ?E]"
    using select1_3 [OF x7(2) n] by blast
  have head: "forward_features m tr nz x =
      (case dist_token m of
        None \<Rightarrow> ebind (pre_logits_forward (pre_logits m) c) (\<lambda>f. Inr (Feat f))
      | Some d \<Rightarrow> ebind (select1 x7 1) (\<lambda>c1. Inr (FeatPair c c1)))"
    using x4 gb0 r0 x6 x7 c
    by (simp add: forward_features_def unpack_pair_def split: option.splits)
  show ?thesis
  proof (cases "dist_token m")
    case None
    with i have nd: "\<not> cfg_distilled cfg" by simp
    from i nd consider "pre_logits m = PIdentity" "num_features m = cfg_embed_dim cfg"
      | l where "new_Linear vini ''pre_logits.fc'' (cfg_embed_dim cfg) (num_features m) True = Inr l"
          "pre_logits m = PSequential l"
      by blast
    then have "\<exists>f. pre_logits_forward (pre_logits m) c = Inr f \<and> shape f = [B, nat (num_features m)]"
    proof cases
      case 1
      with c show ?thesis by (simp add: pre_logits_forward_def)
    next
      case 2
      from Linear_forward_2 [OF 2(1) c(2)] 2(2) show ?thesis
        by (auto simp: pre_logits_forward_def)
    qed
    with head None nd show ?thesis by auto
  next
    case (Some d)
    with i have d: "cfg_distilled cfg" by simp
    then have "1 < ?N" by simp
    from select1_3 [OF x7(2) this] obtain c1 where "select1 x7 1 = Inr c1" "shape c1 = [B, ?E]"
      by blast
    with head Some d c show ?thesis by simp
  qed
qed

lemma build_blocks_ok:
  "(\<And>i. i \<in> set js \<Longrightarrow> \<exists>b. mk i = Inr b) \<Longrightarrow> \<exists>bs. build_blocks mk js = Inr bs"
proof (induction js)
  case Nil
  then show ?case by simp
next
  case (Cons i js)
  from Cons.prems [of i] obtain b where b: "mk i = Inr b" by auto
  from Cons.IH Cons.prems obtain bs where "build_blocks mk js = Inr bs" by auto
  with b show ?case by simp
qed

lemma py_int_nonneg: "0 \<le> r \<Longrightarrow> 0 \<le> py_int r"
  by (simp add: py_int_def)

lemma Mlp_init_ok:
  assumes "0 \<le> dm" "0 \<le> hf" "0 \<le> dp" "dp \<le> 1"
  shows "\<exists>ml. Mlp_init ini dm hf af dp = Inr ml"
  using assms by (simp add: Mlp_init_def Let_def new_Linear_def new_Dropout_def)

lemma Block_init_ok:
  assumes "0 < dm" "0 < nh" "dm mod nh = 0" "0 \<le> r" "0 \<le> dp" "dp \<le> 1" "0 \<le> adp" "adp \<le> 1"
  shows "\<exists>b. Block_init ini eps dm nh r qb dp adp dpp af lth = Inr b"
proof -
  obtain n1 where n1: "new_LayerNorm ini ''norm1'' dm eps = Inr n1"
    using assms(1) by (simp add: new_LayerNorm_def)
  obtain n2 where n2: "new_LayerNorm ini ''norm2'' dm eps = Inr n2"
    using assms(1) by (simp add: new_LayerNorm_def)
  obtain att where att: "Attention_init (\<lambda>n. ini (''attn.'' @ n)) dm nh qb adp dp lth = Inr att"
    using assms by (simp add: Attention_init_cases)
  have "0 \<le> py_int (real_of_int dm * r)"
    using assms(1,4) by (intro py_int_nonneg) simp
  from Mlp_init_ok [OF _ this assms(5,6)] assms(1)
  obtain ml where "Mlp_init ini dm (py_int (real_of_int dm * r)) af dp = Inr ml"
    by (meson less_imp_le)
  with n1 n2 att show ?thesis by (simp add: Block_init_def)
qed

lemma VisionTransformer_init_ok:
  assumes "0 < cfg_embed_dim cfg" "0 < cfg_num_heads cfg"
      "cfg_embed_dim cfg mod cfg_num_heads cfg = 0" "0 \<le> cfg_depth cfg"
      "0 \<le> cfg_mlp_ratio cfg" "0 \<le> cfg_drop_rate cfg" "cfg_drop_rate cfg \<le> 1"
      "0 \<le> cfg_attn_drop_rate cfg" "cfg_attn_drop_rate cfg \<le> 1"
      "0 < cfg_num_classes cfg" "cfg_representation_size cfg = None"
      "cfg_weight_init cfg = []"
  shows "\<exists>m. VisionTransformer_init cfg vini bini = Inr m"
proof -
  let ?mk = "\<lambda>dn i. Block_init (bini i) (1 / 10 ^ 6) (cfg_embed_dim cfg) (cfg_num_heads cfg)
               (cfg_mlp_ratio cfg) (cfg_qkv_bias cfg) (cfg_drop_rate cfg) (cfg_attn_drop_rate cfg)
               (dpr (cfg_drop_path_rate cfg) dn i) (cfg_act_layer cfg) (Some (int i))"
  have "\<exists>b. ?mk dn i = Inr b" for dn i
    by (rule Block_init_ok [OF assms(1,2,3,5,6,7,8,9)])
  then obtain bs where bs: "build_blocks (?mk (nat (cfg_depth cfg))) [0..<nat (cfg_depth cfg)] = Inr bs"
    using build_blocks_ok [of "[0..<nat (cfg_depth cfg)]" "?mk (nat (cfg_depth cfg))"] by blast
  show ?thesis
    using assms bs
    by (simp add: VisionTransformer_init_def Let_def to_size_def new_Dropout_def
          new_LayerNorm_def new_head_def new_Linear_def)
qed

lemma ebind_assoc: "ebind (ebind m f) g = ebind m (\<lambda>v. ebind (f v) g)"
  by (cases m) simp_all

lemma feedback_loop_append:
  "feedback_loop m tr nzb v0 (js @ ks) x
     = ebind (feedback_loop m tr nzb v0 js x) (feedback_loop m tr nzb v0 ks)"
proof (induction js arbitrary: x)
  case Nil
  then show ?case by simp
next
  case (Cons i js)
  show ?case
  proof (cases "get_block m i")
    case (Inl e)
    then show ?thesis by simp
  next
    case (Inr b)
    note b = this
    show ?thesis
    proof (cases "Block_forward b tr (nzb i) x (Some v0)")
      case (Inl e)
      with b show ?thesis by simp
    next
      case (Inr r)
      show ?thesis
      proof (cases r)
        case (Pair y v)
        with b Inr show ?thesis by simp
      next
        case (Single y)
        with b Inr Cons.IH show ?thesis
          by (cases "feedback m y") simp_all
      qed
    qed
  qed
qed

lemma feedback_loop_out_of_range:
  "length (blocks m) \<le> i \<Longrightarrow> feedback_loop m tr nzb v0 (i # js) x = Inl IndexError"
  by (simp add: get_block_def)

lemma upt_split_at:
  assumes "0 < d" "d < (n::nat)"
  shows "[1..<n] = [1..<d] @ d # [Suc d..<n]"
proof -
  have "[1..<n] = [1..<d] @ [d..<n]"
    using assms upt_add_eq_append [of 1 d "n - d"] by simp
  also have "[d..<n] = d # [Suc d..<n]"
    using assms(2) by (simp add: upt_conv_Cons)
  finally show ?thesis .
qed

lemma feedback_loop_short:
  assumes "0 < length (blocks m)" "length (blocks m) < 11"
  shows "feedback_loop m tr nzb v0 [1..<11] x
     = (case feedback_loop m tr nzb v0 [1..<length (blocks m)] x of
          Inl e \<Rightarrow> Inl e | Inr x' \<Rightarrow> Inl IndexError)"
proof -
  let ?d = "length (blocks m)"
  have oor: "feedback_loop m tr nzb v0 (?d # [Suc ?d..<11]) x' = Inl IndexError" for x'
    by (rule feedback_loop_out_of_range) simp
  have "feedback_loop m tr nzb v0 [1..<11] x
          = ebind (feedback_loop m tr nzb v0 [1..<?d] x)
              (feedback_loop m tr nzb v0 (?d # [Suc ?d..<11]))"
    by (simp only: upt_split_at [OF assms] feedback_loop_append)
  also have "\<dots> = (case feedback_loop m tr nzb v0 [1..<?d] x of
          Inl e \<Rightarrow> Inl e | Inr x' \<Rightarrow> Inl IndexError)"
    by (cases "feedback_loop m tr nzb v0 [1..<?d] x") (simp_all only: ebind_Inl ebind_Inr oor sum.case)
  finally show ?thesis .
qed

section \<open>The forward pass: noise and depth\<close>

lemma dropout_off: "\<not> tr \<or> p = 0 \<Longrightarrow> dropout p tr u x = x"
  by (auto simp: dropout_def)

lemma Block_drop_path_off: "\<not> tr \<or> drop_path b = 0 \<Longrightarrow> Block_drop_path b tr u x = x"
  by (auto simp: Block_drop_path_def drop_path_fn_def)

lemma Attention_forward_noise:
  assumes "\<not> tr \<or> attn_drop a = 0 \<and> proj_drop a = 0"
  shows "Attention_forward a tr u1 u2 x v0 = Attention_forward a tr u1' u2' x v0"
proof -
  from assms have 1: "dropout (attn_drop a) tr u t = t" and 2: "dropout (proj_drop a) tr u t = t"
    for u t by (auto intro: dropout_off)
  show ?thesis
    by (simp add: Attention_forward_def attention_pre_proj_def attention_weights_def 1 2
          cong: list.case_cong)
qed

lemma Mlp_forward_noise:
  assumes "\<not> tr \<or> mlp_drop ml = 0"
  shows "Mlp_forward ml tr u1 u2 x = Mlp_forward ml tr u1' u2' x"
proof -
  from assms have 1: "dropout (mlp_drop ml) tr u t = t" for u t
    by (auto intro: dropout_off)
  show ?thesis by (simp add: Mlp_forward_def 1)
qed

lemma Block_forward_noise:
  assumes "\<not> tr \<or> attn_drop (attn b) = 0 \<and> proj_drop (attn b) = 0
                    \<and> mlp_drop (mlp b) = 0 \<and> drop_path b = 0"
  shows "Block_forward b tr nz x v0 = Block_forward b tr nz' x v0"
proof -
  from assms have dp: "Block_drop_path b tr u t = t" for u t
    by (auto intro: Block_drop_path_off)
  from assms have a: "Attention_forward (attn b) tr (nz_attn nz) (nz_proj nz) t v
                      = Attention_forward (attn b) tr (nz_attn nz') (nz_proj nz') t v" for t v
    by (intro Attention_forward_noise) auto
  from assms have ml: "Mlp_forward (mlp b) tr (nz_mlp1 nz) (nz_mlp2 nz) t
                      = Mlp_forward (mlp b) tr (nz_mlp1 nz') (nz_mlp2 nz') t" for t
    by (intro Mlp_forward_noise) auto
  have r: "Block_rest b tr nz t ta = Block_rest b tr nz' t ta" for t ta
    by (simp add: Block_rest_def dp ml cong: if_cong)
  show ?thesis
    by (simp add: Block_forward_def a r cong: if_cong attn_out.case_cong)
qed

lemma no_dropout_block:
  "no_dropout m \<Longrightarrow> i < length (blocks m) \<Longrightarrow>
   attn_drop (attn (blocks m ! i)) = 0 \<and> proj_drop (attn (blocks m ! i)) = 0
     \<and> mlp_drop (mlp (blocks m ! i)) = 0 \<and> drop_path (blocks m ! i) = 0"
  by (simp add: no_dropout_def list_all_length)

lemma feedback_loop_noise:
  assumes "\<not> tr \<or> no_dropout m"
  shows "feedback_loop m tr nzb v0 js x = feedback_loop m tr nzb' v0 js x"
proof (induction js arbitrary: x)
  case Nil
  show ?case by simp
next
  case (Cons i js)
  show ?case
  proof (cases "i < length (blocks m)")
    case True
    with assms have "Block_forward (blocks m ! i) tr (nzb i) x (Some v0)
                   = Block_forward (blocks m ! i) tr (nzb' i) x (Some v0)"
      by (intro Block_forward_noise) (auto dest: no_dropout_block)
    moreover have "feedback_loop m tr nzb v0 js = feedback_loop m tr nzb' v0 js"
      by (rule ext) (rule Cons.IH)
    ultimately show ?thesis using True by (simp add: get_block_def)
  next
    case False
    then show ?thesis by (simp add: get_block_def)
  qed
qed

lemma forward_features_noise:
  assumes "\<not> tr \<or> no_dropout m"
  shows "forward_features m tr nz x = forward_features m tr nz' x"
proof -
  from assms have "dropout (pos_drop m) tr u t = t" for u t
    by (auto simp: no_dropout_def intro: dropout_off)
  then have e: "embed_tokens m tr (nz_pos nz) x = embed_tokens m tr (nz_pos nz') x"
    by (simp add: embed_tokens_def cong: list.case_cong)
  have b0: "ebind (get_block m 0) (\<lambda>b0. ebind (Block_forward b0 tr (nz_blocks nz 0) t None) f)
          = ebind (get_block m 0) (\<lambda>b0. ebind (Block_forward b0 tr (nz_blocks nz' 0) t None) f)"
    for t and f :: "attn_out \<Rightarrow> features result"
  proof (cases "0 < length (blocks m)")
    case True
    with assms have "Block_forward (blocks m ! 0) tr (nz_blocks nz 0) t None
                   = Block_forward (blocks m ! 0) tr (nz_blocks nz' 0) t None"
      by (intro Block_forward_noise) (auto dest: no_dropout_block)
    with True show ?thesis by (simp add: get_block_def)
  next
    case False
    then show ?thesis by (simp add: get_block_def)
  qed
  show ?thesis
    unfolding forward_features_def e
    by (subst b0)
       (simp add: feedback_loop_noise [OF assms, of "nz_blocks nz" _ _ _ "nz_blocks nz'"]
          cong: prod.case_cong)
qed

text \<open>
  C9. The only source of run-to-run variation in the forward pass is the random samples
  of the dropout layers, which the model takes as the argument \<open>nz\<close>. In evaluation
  mode, or with every dropout probability at zero, the result of \<open>forward\<close> on a given
  model and input is the same for any two choices of these samples: two runs agree.
  (\<open>dropout_depends_on_noise\<close> below shows that the samples do matter otherwise.)
\<close>

theorem forward_deterministic:
  assumes "\<not> training \<or> no_dropout m"
  shows "forward m training nz x = forward m training nz' x"
  by (simp add: forward_def forward_features_noise [OF assms, of nz x nz'])

lemma dropout_depends_on_noise:
  "dropout (1 / 2) True (\<lambda>k. 0) (tab [1] (\<lambda>k. 1)) = tab [1] (\<lambda>k. 0)
   \<and> dropout (1 / 2) True (\<lambda>k. 1) (tab [1] (\<lambda>k. 1)) = tab [1] (\<lambda>k. 2)"
  by (simp add: dropout_def tab_def)

lemma Block_init_rates:
  assumes "Block_init ini eps dm nh r qb dp adp dpp af lth = Inr b"
  shows "attn_drop (attn b) = adp \<and> proj_drop (attn b) = dp
       \<and> mlp_drop (mlp b) = dp \<and> drop_path b = dpp"
proof -
  from Block_init_Inr [OF assms] obtain n1 att n2 ml where
    p: "Attention_init (\<lambda>n. ini (''attn.'' @ n)) dm nh qb adp dp lth = Inr att"
       "Mlp_init ini dm (py_int (real_of_int dm * r)) af dp = Inr ml"
    and b: "attn b = att" "mlp b = ml" "drop_path b = dpp"
    by auto
  from p(1) have "attn_drop att = adp \<and> proj_drop att = dp"
    by (auto simp: Attention_init_cases split: if_splits)
  moreover from p(2) have "mlp_drop ml = dp"
    by (auto simp: Mlp_init_def Let_def ebind_eq_Inr new_Dropout_def split: if_splits)
  ultimately show ?thesis using b by simp
qed

lemma demo_model_ok: "0 \<le> d \<Longrightarrow> \<exists>m. demo_model d = Inr m"
  unfolding demo_model_def
  by (rule VisionTransformer_init_ok) (simp_all add: demo_config_def)

lemma demo_model_length: "demo_model d = Inr m \<Longrightarrow> length (blocks m) = nat d"
  using VisionTransformer_init_Inr [of "demo_config d" zero_init "\<lambda>i. zero_init" m]
  by (simp add: demo_model_def demo_config_def)

lemma demo_model_no_dropout:
  assumes "demo_model d = Inr m"
  shows "no_dropout m"
proof -
  from assms have init: "VisionTransformer_init (demo_config d) zero_init (\<lambda>i. zero_init) = Inr m"
    by (simp add: demo_model_def)
  have "pos_drop m = 0"
    using VisionTransformer_init_Inr [OF init] by (simp add: demo_config_def)
  moreover have "attn_drop (attn (blocks m ! i)) = 0 \<and> proj_drop (attn (blocks m ! i)) = 0
                 \<and> mlp_drop (mlp (blocks m ! i)) = 0 \<and> drop_path (blocks m ! i) = 0"
    if "i < length (blocks m)" for i
    using Block_init_rates [OF VisionTransformer_init_block [OF init that]]
    by (simp add: demo_config_def dpr_def)
  ultimately show ?thesis by (simp add: no_dropout_def list_all_length)
qed

lemma demo_patch_embed_images:
  "cfg_patch_embed (demo_config d) demo_images = Inr (tab [8, 196, 768] (\<lambda>k. 0))"
  by (simp add: demo_config_def demo_patch_embed_def demo_images_def)

theorem forward_deterministic_witness:
  "\<exists>m. demo_model 12 = Inr m
      \<and> forward m True (const_noise 0) demo_images = forward m True (const_noise (1 / 2)) demo_images
      \<and> forward m False (const_noise 0) demo_images = forward m False (const_noise (1 / 2)) demo_images"
proof -
  obtain m where m: "demo_model 12 = Inr m" using demo_model_ok [of 12] by auto
  have "\<not> True \<or> no_dropout m" using demo_model_no_dropout [OF m] by simp
  from forward_deterministic [OF this]
  have 1: "forward m True (const_noise 0) demo_images = forward m True (const_noise (1 / 2)) demo_images" .
  have "\<not> False \<or> no_dropout m" by simp
  from forward_deterministic [OF this]
  have 2: "forward m False (const_noise 0) demo_images = forward m False (const_noise (1 / 2)) demo_images" .
  from m 1 2 show ?thesis by blast
qed

lemma forward_ok:
  assumes init: "VisionTransformer_init cfg vini bini = Inr m"
      and ncls: "0 < cfg_num_classes cfg"
      and depth: "11 \<le> cfg_depth cfg"
      and pe: "cfg_patch_embed cfg x = Inr x1"
      and x1: "shape x1 = [B, cfg_num_patches cfg, nat (cfg_embed_dim cfg)]"
      and nd: "\<not> cfg_distilled cfg"
  shows "\<exists>y. forward m tr nz x = Inr (Logits y) \<and> shape y = [B, nat (cfg_num_classes cfg)]"
proof -
  note i = VisionTransformer_init_Inr [OF init]
  from forward_features_ok [OF init ncls depth pe x1, of tr nz]
  obtain f where f: "forward_features m tr nz x = Inr f"
    "(case f of
           Feat t \<Rightarrow> \<not> cfg_distilled cfg \<and> shape t = [B, nat (num_features m)]
         | FeatPair a b \<Rightarrow> cfg_distilled cfg \<and> shape a = [B, nat (cfg_embed_dim cfg)]
                             \<and> shape b = [B, nat (cfg_embed_dim cfg)])"
    by blast
  with nd obtain t where t: "forward_features m tr nz x = Inr (Feat t)"
      "shape t = [B, nat (num_features m)]"
    by (cases f) simp_all
  from i have "case head_dist m of None \<Rightarrow> True | Some h \<Rightarrow> cfg_distilled cfg"
    by (cases "head_dist m") simp_all
  with nd have hd: "head_dist m = None" by (cases "head_dist m") simp_all
  have h: "new_head vini ''head'' (cfg_num_classes cfg) (num_features m) (cfg_num_classes cfg)
            = Inr (head m)" using i by blast
  from head_forward_ok [OF h ncls t(2)]
  obtain y where "head_forward (head m) t = Inr y" "shape y = [B, nat (cfg_num_classes cfg)]"
    by blast
  with t hd show ?thesis by (simp add: forward_def)
qed

text \<open>
  C4 (amended). With fewer than 11 blocks \<open>forward_features\<close> never returns a value.
  With no block at all, \<open>self.blocks[0]\<close> raises the index error once the tokens are
  embedded; with \<open>1 \<le> depth \<le> 10\<close>, once block 0 and the iterations
  \<open>1 .. depth - 1\<close> of the feedback loop have succeeded, the loop raises the index error
  at \<open>self.blocks[depth]\<close>.
\<close>

theorem forward_features_short_depth:
  assumes short: "length (blocks m) < 11"
  shows "(\<exists>e. forward_features m tr nz x = Inl e)
       \<and> (\<forall>x4. embed_tokens m tr (nz_pos nz) x = Inr x4 \<longrightarrow> length (blocks m) = 0 \<longrightarrow>
              forward_features m tr nz x = Inl IndexError)
       \<and> (\<forall>x4 r0 x5 v0 x'. embed_tokens m tr (nz_pos nz) x = Inr x4 \<longrightarrow>
              0 < length (blocks m) \<longrightarrow>
              Block_forward (blocks m ! 0) tr (nz_blocks nz 0) x4 None = Inr r0 \<longrightarrow>
              unpack_pair r0 = Inr (x5, v0) \<longrightarrow>
              feedback_loop m tr (nz_blocks nz) v0 [1..<length (blocks m)] x5 = Inr x' \<longrightarrow>
              forward_features m tr nz x = Inl IndexError)"
proof (cases "0 < length (blocks m)")
  case False
  then have gb: "get_block m 0 = Inl IndexError" by (simp add: get_block_def)
  have "forward_features m tr nz x = Inl IndexError"
    if "embed_tokens m tr (nz_pos nz) x = Inr x4" for x4
    using that gb by (simp add: forward_features_def)
  moreover have "\<exists>e. forward_features m tr nz x = Inl e"
    using gb by (cases "embed_tokens m tr (nz_pos nz) x") (simp_all add: forward_features_def)
  ultimately show ?thesis using False by simp
next
  case True
  then have gb: "get_block m 0 = Inr (blocks m ! 0)" by (simp add: get_block_def)
  note loop = feedback_loop_short [OF True short, of tr "nz_blocks nz"]
  have tail: "\<exists>e. ebind (feedback_loop m tr (nz_blocks nz) v0 [1..<11] x5) f = Inl e"
    for v0 x5 and f :: "tensor \<Rightarrow> features result"
    unfolding loop
    by (cases "feedback_loop m tr (nz_blocks nz) v0 [1..<length (blocks m)] x5") simp_all
  have 1: "\<exists>e. forward_features m tr nz x = Inl e"
  proof (cases "embed_tokens m tr (nz_pos nz) x")
    case (Inl e)
    then show ?thesis by (simp add: forward_features_def)
  next
    case x4: (Inr x4)
    show ?thesis
    proof (cases "Block_forward (blocks m ! 0) tr (nz_blocks nz 0) x4 None")
      case (Inl e)
      with x4 gb show ?thesis by (simp add: forward_features_def)
    next
      case r0: (Inr r0)
      show ?thesis
      proof (cases "unpack_pair r0")
        case (Inl e)
        with x4 gb r0 show ?thesis by (simp add: forward_features_def)
      next
        case (Inr p)
        obtain x5 v0 where p: "p = (x5, v0)" by (cases p)
        from tail [of v0 x5] x4 gb r0 Inr p show ?thesis
          by (simp add: forward_features_def)
      qed
    qed
  qed
  have 2: "forward_features m tr nz x = Inl IndexError"
    if "embed_tokens m tr (nz_pos nz) x = Inr x4"
       "Block_forward (blocks m ! 0) tr (nz_blocks nz 0) x4 None = Inr r0"
       "unpack_pair r0 = Inr (x5, v0)"
       "feedback_loop m tr (nz_blocks nz) v0 [1..<length (blocks m)] x5 = Inr x'"
    for x4 r0 x5 v0 x'
    unfolding forward_features_def loop using that gb by simp
  from 1 2 True show ?thesis by blast
qed

lemma first_block_ok:
  assumes init: "VisionTransformer_init cfg vini bini = Inr m"
      and len0: "0 < length (blocks m)"
      and pe: "cfg_patch_embed cfg x = Inr x1"
      and x1: "shape x1 = [B, cfg_num_patches cfg, nat (cfg_embed_dim cfg)]"
  shows "\<exists>x4 x5 v0. embed_tokens m tr (nz_pos nz) x = Inr x4
     \<and> Block_forward (blocks m ! 0) tr (nz_blocks nz 0) x4 None = Inr (Pair x5 v0)
     \<and> shape x5 = [B, cfg_num_patches cfg + (if cfg_distilled cfg then 2 else 1),
                    nat (cfg_embed_dim cfg)]
     \<and> prod_list (shape v0) = B * (cfg_num_patches cfg + (if cfg_distilled cfg then 2 else 1))
                                  * nat (cfg_embed_dim cfg)"
proof -
  let ?E = "nat (cfg_embed_dim cfg)" and ?P = "cfg_num_patches cfg"
  let ?N = "?P + (if cfg_distilled cfg then 2 else 1)"
  let ?nh = "cfg_num_heads cfg"
  obtain x4 where x4: "embed_tokens m tr (nz_pos nz) x = Inr x4" "shape x4 = [B, ?N, ?E]"
    using embed_tokens_ok [OF init pe x1] by blast
  have b0: "Block_init (bini 0) (1 / 10 ^ 6) (cfg_embed_dim cfg) ?nh
               (cfg_mlp_ratio cfg) (cfg_qkv_bias cfg) (cfg_drop_rate cfg) (cfg_attn_drop_rate cfg)
               (dpr (cfg_drop_path_rate cfg) (nat (cfg_depth cfg)) 0) (cfg_act_layer cfg)
               (Some (int 0)) = Inr (blocks m ! 0)"
    by (rule VisionTransformer_init_block [OF init len0])
  from Block_forward_ok [OF b0 x4(2), of None tr "nz_blocks nz 0"]
  obtain x5 v0 where r0: "Block_forward (blocks m ! 0) tr (nz_blocks nz 0) x4 None = Inr (Pair x5 v0)"
      "shape x5 = [B, ?N, ?E]" "shape v0 = [B, nat ?nh, ?N, nat (cfg_embed_dim cfg div ?nh)]"
    by auto
  from Block_init_Inr [OF b0] obtain att where
    "Attention_init (\<lambda>n. bini 0 (''attn.'' @ n)) (cfg_embed_dim cfg) ?nh (cfg_qkv_bias cfg)
       (cfg_attn_drop_rate cfg) (cfg_drop_rate cfg) (Some (int 0)) = Inr att"
    by blast
  from Attention_init_dims [OF this]
  have "nat ?nh * nat (cfg_embed_dim cfg div ?nh) = ?E" by blast
  then have v0: "prod_list (shape v0) = B * ?N * ?E"
    by (simp add: r0(3) mult.assoc [symmetric])
  from x4 r0 v0 show ?thesis by blast
qed

theorem forward_features_short_depth_witness:
  "\<exists>m. demo_model 10 = Inr m \<and> length (blocks m) = 10
      \<and> forward_features m False (const_noise 0) demo_images = Inl IndexError"
proof -
  obtain m where m: "demo_model 10 = Inr m" using demo_model_ok [of 10] by auto
  then have init: "VisionTransformer_init (demo_config 10) zero_init (\<lambda>i. zero_init) = Inr m"
    by (simp add: demo_model_def)
  have len: "length (blocks m) = 10" using demo_model_length [OF m] by simp
  then have len0: "0 < length (blocks m)" and short: "length (blocks m) < 11" by simp_all
  have x1: "shape (tab [8, 196, 768] (\<lambda>k. 0))
              = [8, cfg_num_patches (demo_config 10), nat (cfg_embed_dim (demo_config 10))]"
    by (simp add: demo_config_def)
  have ncls: "0 < cfg_num_classes (demo_config 10)" by (simp add: demo_config_def)
  from first_block_ok [OF init len0 demo_patch_embed_images x1, of False "const_noise 0"]
  obtain x4 x5 v0 where
    r: "embed_tokens m False (nz_pos (const_noise 0)) demo_images = Inr x4"
       "Block_forward (blocks m ! 0) False (nz_blocks (const_noise 0) 0) x4 None = Inr (Pair x5 v0)"
       "shape x5 = [8, 197, nat (cfg_embed_dim (demo_config 10))]"
       "prod_list (shape v0) = 8 * 197 * nat (cfg_embed_dim (demo_config 10))"
    by (auto simp: demo_config_def)
  have "\<forall>i\<in>set [1..<length (blocks m)]. 0 < i \<and> i < length (blocks m)" by auto
  from feedback_loop_ok [OF init ncls _ r(4) this r(3), of False "nz_blocks (const_noise 0)"]
  obtain x' where x': "feedback_loop m False (nz_blocks (const_noise 0)) v0
                         [1..<length (blocks m)] x5 = Inr x'"
    by auto
  have up: "unpack_pair (Pair x5 v0) = Inr (x5, v0)" by (simp add: unpack_pair_def)
  from forward_features_short_depth [OF short, of False "const_noise 0" demo_images]
       r(1) len0 r(2) up x'
  have "forward_features m False (const_noise 0) demo_images = Inl IndexError"
    by blast
  with m len show ?thesis by blast
qed

text \<open>
  The claim as stated fails at depth 11, which is less than 12: the loop reads the indices
  \<open>1 .. 10\<close> only, all of them present, and \<open>forward_features\<close> returns.
\<close>

theorem forward_features_depth_11_completes:
  "(11::int) < 12 \<and> \<not> isl (demo_model 11) \<and> length (blocks (projr (demo_model 11))) = 11
   \<and> \<not> isl (forward_features (projr (demo_model 11)) False (const_noise 0) demo_images)"
proof -
  obtain m where m: "demo_model 11 = Inr m" using demo_model_ok [of 11] by auto
  then have init: "VisionTransformer_init (demo_config 11) zero_init (\<lambda>i. zero_init) = Inr m"
    by (simp add: demo_model_def)
  have len: "length (blocks m) = 11" using demo_model_length [OF m] by simp
  have x1: "shape (tab [8, 196, 768] (\<lambda>k. 0))
              = [8, cfg_num_patches (demo_config 11), nat (cfg_embed_dim (demo_config 11))]"
    by (simp add: demo_config_def)
  have ncls: "0 < cfg_num_classes (demo_config 11)" by (simp add: demo_config_def)
  have depth: "11 \<le> cfg_depth (demo_config 11)" by (simp add: demo_config_def)
  from forward_features_ok [OF init ncls depth demo_patch_embed_images x1, of False "const_noise 0"]
  obtain f where "forward_features m False (const_noise 0) demo_images = Inr f" by blast
  with m len show ?thesis by simp
qed

lemma get_block_take:
  "i < 11 \<Longrightarrow> get_block (m\<lparr>blocks := take 11 (blocks m)\<rparr>) i = get_block m i"
  by (simp add: get_block_def)

lemma feedback_blocks_update: "feedback (m\<lparr>blocks := bs\<rparr>) x = feedback m x"
  by (simp add: feedback_def mid_class_prediction_def)

lemma feedback_loop_take:
  "\<forall>i\<in>set js. i < 11 \<Longrightarrow>
   feedback_loop (m\<lparr>blocks := take 11 (blocks m)\<rparr>) tr nzb v0 js x = feedback_loop m tr nzb v0 js x"
proof (induction js arbitrary: x)
  case Nil
  show ?case by simp
next
  case (Cons i js)
  then have i: "i < 11" and js: "\<forall>i\<in>set js. i < 11" by simp_all
  have "feedback_loop (m\<lparr>blocks := take 11 (blocks m)\<rparr>) tr nzb v0 js
          = feedback_loop m tr nzb v0 js"
    by (rule ext) (rule Cons.IH [OF js])
  then show ?case
    by (simp add: get_block_take [OF i] feedback_blocks_update)
qed

text \<open>
  C1. The code does not run the blocks of index above 10: \<open>forward_features\<close> and
  \<open>forward\<close> return the same result when every block from index 11 on is removed from
  the model. For depth 12 (\<open>depth_12_runs_11_blocks\<close> below) the pass completes and
  block 11 contributes nothing to the logits.
\<close>

theorem forward_ignores_blocks_past_10:
  "forward_features (m\<lparr>blocks := take 11 (blocks m)\<rparr>) tr nz x = forward_features m tr nz x
   \<and> forward (m\<lparr>blocks := take 11 (blocks m)\<rparr>) tr nz x = forward m tr nz x"
proof -
  have e: "embed_tokens (m\<lparr>blocks := take 11 (blocks m)\<rparr>) tr u x = embed_tokens m tr u x" for u
    by (simp add: embed_tokens_def cong: list.case_cong)
  have l: "feedback_loop (m\<lparr>blocks := take 11 (blocks m)\<rparr>) tr nzb v0 [1..<11] t
             = feedback_loop m tr nzb v0 [1..<11] t" for nzb v0 t
    by (rule feedback_loop_take) simp
  have g: "get_block (m\<lparr>blocks := take 11 (blocks m)\<rparr>) 0 = get_block m 0"
    by (rule get_block_take) simp
  have ff: "forward_features (m\<lparr>blocks := take 11 (blocks m)\<rparr>) tr nz x = forward_features m tr nz x"
    unfolding forward_features_def e l g by (simp cong: option.case_cong)
  then show ?thesis
    by (simp add: forward_def cong: option.case_cong features.case_cong)
qed

lemma depth_12_runs_11_blocks:
  "\<exists>m y. demo_model 12 = Inr m \<and> length (blocks m) = 12
      \<and> forward m False (const_noise 0) demo_images = Inr (Logits y) \<and> shape y = [8, 1000]
      \<and> length (blocks (m\<lparr>blocks := take 11 (blocks m)\<rparr>)) = 11
      \<and> forward (m\<lparr>blocks := take 11 (blocks m)\<rparr>) False (const_noise 0) demo_images
          = Inr (Logits y)"
proof -
  obtain m where m: "demo_model 12 = Inr m" using demo_model_ok [of 12] by auto
  then have init: "VisionTransformer_init (demo_config 12) zero_init (\<lambda>i. zero_init) = Inr m"
    by (simp add: demo_model_def)
  have len: "length (blocks m) = 12" using demo_model_length [OF m] by simp
  have x1: "shape (tab [8, 196, 768] (\<lambda>k. 0))
              = [8, cfg_num_patches (demo_config 12), nat (cfg_embed_dim (demo_config 12))]"
    by (simp add: demo_config_def)
  have ncls: "0 < cfg_num_classes (demo_config 12)" by (simp add: demo_config_def)
  have depth: "11 \<le> cfg_depth (demo_config 12)" by (simp add: demo_config_def)
  have nd: "\<not> cfg_distilled (demo_config 12)" by (simp add: demo_config_def)
  from forward_ok [OF init ncls depth demo_patch_embed_images x1 nd, of False "const_noise 0"]
  obtain y where y: "forward m False (const_noise 0) demo_images = Inr (Logits y)"
      "shape y = [8, 1000]"
    by (auto simp: demo_config_def)
  with m len forward_ignores_blocks_past_10 [of m False "const_noise 0" demo_images]
  show ?thesis by auto
qed



section \<open>The correction term of the attention call\<close>

text \<open>
  Entries of the tensors that the correction term passes through: the permutation that
  makes the channel axis the middle one, the convolution of kernel size one, and the
  elementwise operations on equal shapes.
\<close>

lemma div_mod_offset:
  "r < (P::nat) \<Longrightarrow> (i * P + r) div P = i" "r < (P::nat) \<Longrightarrow> (i * P + r) mod P = r"
  by simp_all

lemma idx3_split:
  assumes "j < (c::nat)" "l < b"
  shows "((i * c + j) * b + l) div (c * b) = i" "((i * c + j) * b + l) mod (c * b) = j * b + l"
proof -
  have e: "(i * c + j) * b + l = i * (c * b) + (j * b + l)" by (simp add: algebra_simps)
  have lt: "j * b + l < c * b" using assms by (rule idx2_bound)
  show "((i * c + j) * b + l) div (c * b) = i"
    unfolding e by (rule div_mod_offset(1) [OF lt])
  show "((i * c + j) * b + l) mod (c * b) = j * b + l"
    unfolding e by (rule div_mod_offset(2) [OF lt])
qed

lemma permute_021_at:
  assumes sh: "shape t = [a, b, c]" and p: "permute t [0, 2, 1] = Inr t'"
      and i: "i < a" and j: "j < c" and l: "l < b"
  shows "data t' ! ((i * c + j) * b + l) = data t ! ((i * b + l) * c + j)"
proof -
  from sh p have t': "t' = tab [a, c, b]
      (\<lambda>k. data t ! (k div (c * b) * (b * c) + (k mod (c * b) mod b * c + k mod (c * b) div b)))"
    by (simp add: permute_def Let_def upt3)
  have lt: "(i * c + j) * b + l < prod_list [a, c, b]"
    using idx3_bound [OF i j l] by (simp add: mult.assoc)
  have "data t' ! ((i * c + j) * b + l)
          = data t ! (i * (b * c) + (l * c + j))"
    unfolding t' using lt l j by (simp add: idx3_split [OF j l])
  also have "i * (b * c) + (l * c + j) = (i * b + l) * c + j" by (simp add: algebra_simps)
  finally show ?thesis .
qed

lemma conv1d_k1_at:
  assumes x: "shape x = [bn, ci, l]" and w: "shape w = [co, ci, 1]"
      and cv: "conv1d x w bs 1 0 1 = Inr t'"
      and bi: "bi < bn" and oc: "oc < co" and t: "t < l"
  shows "data t' ! ((bi * co + oc) * l + t)
           = (case bs of None \<Rightarrow> 0 | Some bt \<Rightarrow> data bt ! oc)
             + (\<Sum>i\<leftarrow>[0..<ci]. data w ! (oc * ci + i) * data x ! ((bi * ci + i) * l + t))"
proof -
  from t obtain l' where l: "l = Suc l'" by (cases l) auto
  from x w cv have t': "t' = tab [bn, co, l]
      (\<lambda>k. (case bs of None \<Rightarrow> 0 | Some bt \<Rightarrow> data bt ! (k div l mod co))
           + (\<Sum>i\<leftarrow>[0..<ci]. data w ! (k div l mod co * ci + i)
                 * data x ! ((k div (co * l) * ci + i) * l + k mod l)))"
    unfolding l by (simp add: conv1d_def conv1d_batched_def Let_def split: if_splits)
  have lt: "(bi * co + oc) * l + t < prod_list [bn, co, l]"
    using idx3_bound [OF bi oc t] by (simp add: mult.assoc)
  show ?thesis
    unfolding t' using lt oc t
    by (simp add: idx3_split [OF oc t] cong: option.case_cong)
qed

lemma bcast_index_same: "k < prod_list s \<Longrightarrow> bcast_index s s k = k"
proof -
  have "k < prod_list s \<Longrightarrow>
        ravel s (map2 (\<lambda>d i. if d = 1 then 0 else i) s (unravel s k)) = k"
  proof (induction s arbitrary: k)
    case Nil
    then show ?case by simp
  next
    case (Cons d ds)
    let ?P = "prod_list ds"
    from Cons.prems have P: "0 < ?P" by (cases "?P = 0") simp_all
    then have "k mod ?P < ?P" by simp
    from Cons.IH [OF this]
    have ih: "ravel ds (map2 (\<lambda>d i. if d = 1 then 0 else i) ds (unravel ds (k mod ?P))) = k mod ?P" .
    show ?case
    proof (cases "d = 1")
      case True
      with Cons.prems have "k < ?P" by simp
      with True ih show ?thesis by simp
    next
      case False
      with ih show ?thesis by simp
    qed
  qed
  then show "k < prod_list s \<Longrightarrow> bcast_index s s k = k"
    by (simp add: bcast_index_def)
qed

lemma binop_same_at:
  assumes "shape x = shape y" "binop f x y = Inr t'" "k < prod_list (shape x)"
  shows "data t' ! k = f (data x ! k) (data y ! k)"
  using assms by (auto simp: binop_def bcast_index_same)

lemma mul_scalar_at: "k < prod_list (shape t) \<Longrightarrow> data (mul_scalar t c) ! k = data t ! k * c"
  by (simp add: mul_scalar_def)

lemma sum_list_upt_cong:
  "(\<And>i. i < n \<Longrightarrow> f i = g i) \<Longrightarrow> (\<Sum>i\<leftarrow>[0..<n]. f i) = (\<Sum>i\<leftarrow>[0..<n]. (g i :: real))"
  by (rule arg_cong [where f = sum_list]) simp

lemma attention_res_value:
  assumes init: "Attention_init ini dm nh qb ad pd (Some l) = Inr a"
      and l: "0 < l" and n: "0 < N"
      and v: "shape v = [B, nat nh, N, nat (dm div nh)]"
      and v0: "prod_list (shape v0) = B * nat nh * N * nat (dm div nh)"
  shows "\<exists>res. attention_res a B N (nat dm) v (Some v0) = Inr (Tens res)
           \<and> shape res = [B, nat nh, N, nat (dm div nh)]
           \<and> (\<forall>t<B * nat nh * N. \<forall>d<nat (dm div nh).
                 data res ! (t * nat (dm div nh) + d)
                   = spec_correction a (nat (dm div nh)) v0 v (t * nat (dm div nh) + d))"
proof -
  let ?H = "nat nh" and ?hd = "nat (dm div nh)"
  let ?BH = "B * ?H"
  let ?g = "g_conv a"
  from init have pos: "0 < dm" "0 < nh" "dm mod nh = 0"
    by (auto simp: Attention_init_cases split: if_splits)
  from init pos have a: "num_heads a = nh" "layerth a = Some l"
    "shape (conv_weight ?g) = [?hd, ?hd, 1]"
    "(case conv_bias ?g of None \<Rightarrow> True | Some bt \<Rightarrow> shape bt = [?hd])"
    "conv_stride ?g = 1" "conv_padding ?g = 0" "conv_dilation ?g = 1"
    "wf_tensor (conv_weight ?g)" "alpha a = 6 / 10"
    by (auto simp: Attention_init_cases split: if_splits)
  from pos have hd: "0 \<le> dm div nh" by (simp add: pos_imp_zdiv_nonneg_iff)
  let ?v0r = "v0\<lparr>shape := [?BH, N, ?hd]\<rparr>" and ?vr = "v\<lparr>shape := [?BH, N, ?hd]\<rparr>"
  have sv0r: "shape ?v0r = [?BH, N, ?hd]" and svr: "shape ?vr = [?BH, N, ?hd]" by simp_all
  have r0: "reshape v0 [?BH, N, ?hd] = Inr ?v0r"
    by (rule reshape_Inr) (simp add: v0)
  obtain v0p where v0p: "permute ?v0r [0, 2, 1] = Inr v0p" "shape v0p = [?BH, ?hd, N]"
    using permute_021 [of ?v0r] by auto
  have r1: "reshape v [?BH, N, ?hd] = Inr ?vr"
    by (rule reshape_Inr) (simp add: v)
  obtain vp where vp: "permute ?vr [0, 2, 1] = Inr vp" "shape vp = [?BH, ?hd, N]"
    using permute_021 [of ?vr] by auto
  obtain gv where gv: "conv1d vp (conv_weight ?g) (conv_bias ?g) 1 0 1 = Inr gv"
      "shape gv = [?BH, ?hd, N]"
    using conv1d_k1_shape [OF vp(2) a(3) n a(4)] by auto
  obtain df where df: "binop (-) v0p gv = Inr df" "shape df = [?BH, ?hd, N]"
    using binop_same [of v0p gv "(-)"] v0p(2) gv(2) by auto
  have fw: "flip2 (conv_weight ?g) = Inr (conv_weight ?g)"
    using a(3) a(8) by (rule flip2_kernel1)
  obtain adj where adj: "conv1d df (conv_weight ?g) (conv_bias ?g) 1 0 1 = Inr adj"
      "shape adj = [?BH, ?hd, N]"
    using conv1d_k1_shape [OF df(2) a(3) n a(4)] by auto
  let ?sc = "mul_scalar adj (alpha a)"
  have scs: "shape ?sc = [?BH, ?hd, N]" by (simp add: adj(2))
  obtain r2 where r2: "permute ?sc [0, 2, 1] = Inr r2" "shape r2 = [?BH, N, ?hd]"
    using permute_021 [OF scs] by auto
  let ?res = "r2\<lparr>shape := [B, ?H, N, ?hd]\<rparr>"
  have r3: "reshape r2 [B, ?H, N, ?hd] = Inr ?res"
    by (rule reshape_Inr) (simp add: r2)
  have run: "attention_res a B N (nat dm) v (Some v0) = Inr (Tens ?res)"
    using pos hd l a(1,2,5,6,7) r0 v0p r1 vp gv df fw adj r2 r3
    by (simp add: attention_res_def py_floordiv_def to_size_def Conv1d_forward_def
          adjoint_conv_def tensor_sub_def)
  have val: "data ?res ! (t * ?hd + d) = spec_correction a ?hd v0 v (t * ?hd + d)"
    if t: "t < ?BH * N" and d: "d < ?hd" for t d
  proof -
    define bh where "bh = t div N"
    define nn where "nn = t mod N"
    have tt: "t = bh * N + nn" by (simp add: bh_def nn_def)
    have bh: "bh < ?BH" using t n by (simp add: bh_def less_mult_imp_div_less)
    have nn: "nn < N" using n by (simp add: nn_def)
    have v0p_at: "data v0p ! ((bh * ?hd + c) * N + nn) = data v0 ! (t * ?hd + c)" if "c < ?hd" for c
      using permute_021_at [OF sv0r v0p(1) bh that nn] by (simp add: tt)
    have vp_at: "data vp ! ((bh * ?hd + c) * N + nn) = data v ! (t * ?hd + c)" if "c < ?hd" for c
      using permute_021_at [OF svr vp(1) bh that nn] by (simp add: tt)
    have gv_at: "data gv ! ((bh * ?hd + c) * N + nn)
                   = conv_k1_at ?g ?hd (\<lambda>e. data v ! (t * ?hd + e)) c" if c: "c < ?hd" for c
      unfolding conv_k1_at_def conv1d_k1_at [OF vp(2) a(3) gv(1) bh c nn]
      by (simp add: vp_at cong: sum_list_upt_cong)
    have df_at: "data df ! ((bh * ?hd + c) * N + nn)
                   = data v0 ! (t * ?hd + c) - conv_k1_at ?g ?hd (\<lambda>e. data v ! (t * ?hd + e)) c"
      if c: "c < ?hd" for c
    proof -
      have "(bh * ?hd + c) * N + nn < prod_list (shape v0p)"
        using idx3_bound [OF bh c nn] by (simp add: v0p(2) mult.assoc)
      from binop_same_at [OF _ df(1) this] v0p(2) gv(2)
      show ?thesis by (simp add: v0p_at [OF c] gv_at [OF c])
    qed
    have adj_at: "data adj ! ((bh * ?hd + d) * N + nn)
                   = conv_k1_at ?g ?hd (\<lambda>c. data v0 ! (t * ?hd + c)
                         - conv_k1_at ?g ?hd (\<lambda>e. data v ! (t * ?hd + e)) c) d"
      unfolding conv_k1_at_def [of ?g ?hd _ d] conv1d_k1_at [OF df(2) a(3) adj(1) bh d nn]
      by (simp add: df_at cong: sum_list_upt_cong)
    have lt: "(bh * ?hd + d) * N + nn < prod_list (shape adj)"
      using idx3_bound [OF bh d nn] by (simp add: adj(2) mult.assoc)
    have "data ?res ! (t * ?hd + d) = data r2 ! ((bh * N + nn) * ?hd + d)"
      by (simp add: tt)
    also have "\<dots> = data ?sc ! ((bh * ?hd + d) * N + nn)"
      by (rule permute_021_at [OF scs r2(1) bh nn d])
    also have "\<dots> = data adj ! ((bh * ?hd + d) * N + nn) * alpha a"
      by (rule mul_scalar_at [OF lt])
    also have "\<dots> = spec_correction a ?hd v0 v (t * ?hd + d)"
      using d by (simp add: adj_at a(9) spec_correction_def Let_def)
    finally show ?thesis .
  qed
  from run r2(2) val show ?thesis by auto
qed

lemma add_scalar_zero_at:
  "k < prod_list (shape t) \<Longrightarrow> data (add_scalar t 0) ! k = data t ! k"
  by (simp add: add_scalar_def)

text \<open>
  C3. For an attention module built by the constructor and an input of shape
  \<open>[B, N, dim]\<close>, the attention weights and \<open>v\<close> are computed and \<open>attn @ v\<close> has shape
  \<open>[B, num_heads, N, head_dim]\<close>. With layer index \<open>0\<close> the correction is the number \<open>0\<close>
  and the output before the projection has the entries of \<open>attn @ v\<close>. With a layer
  index above \<open>0\<close>, at least one token and a \<open>v0\<close> of \<open>B * N * dim\<close> entries, the
  correction is a tensor of shape \<open>[B, num_heads, N, head_dim]\<close> whose every entry is
  \<open>0.6\<close> times the adjoint convolution of \<open>v0\<close> minus \<open>g_conv\<close> of \<open>v\<close>, taken over the
  \<open>head_dim\<close> channels of the entry's token, and every entry of the output before the
  projection is the entry of \<open>attn @ v\<close> plus the entry of the correction. Numbers are
  reals here, where the program computes in floating point.
\<close>

theorem attention_pre_proj_correction:
  assumes init: "Attention_init ini dm nh qb ad pd (Some l) = Inr a"
      and x: "shape x = [B, N, nat dm]"
  shows "\<exists>attn v av.
           attention_weights a tr u x = Inr (B, N, nat dm, attn, v)
         \<and> matmul attn v = Inr av \<and> shape av = [B, nat nh, N, nat (dm div nh)]
         \<and> (l = 0 \<longrightarrow> (\<forall>v0.
               attention_res a B N (nat dm) v v0 = Inr (PyNum 0)
             \<and> (\<exists>y. attention_pre_proj a tr u x v0 = Inr (y, v)
                   \<and> shape y = [B, nat nh, N, nat (dm div nh)]
                   \<and> (\<forall>k < B * nat nh * N * nat (dm div nh). data y ! k = data av ! k))))
         \<and> (0 < l \<longrightarrow> (\<forall>v0. 0 < N \<longrightarrow> prod_list (shape v0) = B * N * nat dm \<longrightarrow>
               (\<exists>corr y.
                   attention_res a B N (nat dm) v (Some v0) = Inr (Tens corr)
                 \<and> shape corr = [B, nat nh, N, nat (dm div nh)]
                 \<and> (\<forall>k < B * nat nh * N * nat (dm div nh).
                       data corr ! k = spec_correction a (nat (dm div nh)) v0 v k)
                 \<and> attention_pre_proj a tr u x (Some v0) = Inr (y, v)
                 \<and> shape y = [B, nat nh, N, nat (dm div nh)]
                 \<and> (\<forall>k < B * nat nh * N * nat (dm div nh).
                       data y ! k = data av ! k + data corr ! k))))"
proof -
  let ?H = "nat nh" and ?hd = "nat (dm div nh)"
  let ?n = "B * ?H * N * ?hd"
  from Attention_init_dims [OF init] have dims: "0 < dm" "0 < nh" "?H * ?hd = nat dm"
    by simp_all
  from dims(1,3) have hdpos: "0 < ?hd" by (cases "?hd = 0") simp_all
  from init have lth: "layerth a = Some l"
    by (auto simp: Attention_init_cases split: if_splits)
  obtain attn v where w: "attention_weights a tr u x = Inr (B, N, nat dm, attn, v)"
      "shape attn = [B, ?H, N, N]" "shape v = [B, ?H, N, ?hd]"
    using attention_weights_ok [OF init x] by blast
  obtain av where av: "matmul attn v = Inr av" "shape av = [B, ?H, N, ?hd]"
    using matmul_4 [OF w(2) w(3)] by auto
  have pav: "prod_list (shape av) = ?n" by (simp add: av(2) mult.assoc)
  have zero: "attention_res a B N (nat dm) v v0 = Inr (PyNum 0)
             \<and> (\<exists>y. attention_pre_proj a tr u x v0 = Inr (y, v)
                   \<and> shape y = [B, ?H, N, ?hd]
                   \<and> (\<forall>k < ?n. data y ! k = data av ! k))"
    if l: "l = 0" for v0
  proof -
    have r: "attention_res a B N (nat dm) v v0 = Inr (PyNum 0)"
      using lth l by (simp add: attention_res_def)
    have "attention_pre_proj a tr u x v0 = Inr (add_scalar av 0, v)"
      by (simp add: attention_pre_proj_def w(1) r av(1) add_operand_def)
    moreover have "\<forall>k < ?n. data (add_scalar av 0) ! k = data av ! k"
      using pav by (simp add: add_scalar_zero_at)
    ultimately show ?thesis using r av(2) by simp
  qed
  have later: "\<exists>corr y.
                   attention_res a B N (nat dm) v (Some v0) = Inr (Tens corr)
                 \<and> shape corr = [B, ?H, N, ?hd]
                 \<and> (\<forall>k < ?n. data corr ! k = spec_correction a ?hd v0 v k)
                 \<and> attention_pre_proj a tr u x (Some v0) = Inr (y, v)
                 \<and> shape y = [B, ?H, N, ?hd]
                 \<and> (\<forall>k < ?n. data y ! k = data av ! k + data corr ! k)"
    if l: "0 < l" and n: "0 < N" and v0: "prod_list (shape v0) = B * N * nat dm" for v0
  proof -
    have v0': "prod_list (shape v0) = B * ?H * N * ?hd"
      using v0 dims(3) [symmetric] by (simp add: algebra_simps)
    from attention_res_value [OF init l n w(3) v0']
    obtain corr where c: "attention_res a B N (nat dm) v (Some v0) = Inr (Tens corr)"
        "shape corr = [B, ?H, N, ?hd]"
        "\<forall>t<B * ?H * N. \<forall>d< ?hd. data corr ! (t * ?hd + d)
                   = spec_correction a ?hd v0 v (t * ?hd + d)"
      by blast
    have flat: "data corr ! k = spec_correction a ?hd v0 v k" if k: "k < ?n" for k
    proof -
      have "k div ?hd < B * ?H * N"
        using k hdpos by (simp add: less_mult_imp_div_less)
      moreover have "k mod ?hd < ?hd" using hdpos by simp
      ultimately have "data corr ! (k div ?hd * ?hd + k mod ?hd)
                   = spec_correction a ?hd v0 v (k div ?hd * ?hd + k mod ?hd)"
        using c(3) by blast
      then show ?thesis by simp
    qed
    obtain y where y: "binop (+) av corr = Inr y" "shape y = shape av"
      using binop_same [of av corr "(+)"] av(2) c(2) by auto
    have sum: "data y ! k = data av ! k + data corr ! k" if "k < ?n" for k
      using binop_same_at [OF _ y(1), of k] that pav av(2) c(2) by simp
    have "attention_pre_proj a tr u x (Some v0) = Inr (y, v)"
      by (simp add: attention_pre_proj_def w(1) c(1) av(1) add_operand_def tensor_add_def y(1))
    with c(1,2) flat y(2) av(2) sum show ?thesis by auto
  qed
  from w(1) av zero later show ?thesis by blast
qed

theorem attention_pre_proj_correction_witness:
  "\<exists>a0 a3 attn0 attn3 w0 w3 av0 av3 y0 corr y3.
       Attention_init (\<lambda>n k. 1) 64 8 False 0 0 (Some 0) = Inr a0
     \<and> attention_weights a0 False (\<lambda>k. 0) (tab [1, 16, 64] real) = Inr (1, 16, 64, attn0, w0)
     \<and> matmul attn0 w0 = Inr av0
     \<and> attention_res a0 1 16 64 w0 None = Inr (PyNum 0)
     \<and> attention_pre_proj a0 False (\<lambda>k. 0) (tab [1, 16, 64] real) None = Inr (y0, w0)
     \<and> (\<forall>k<1024. data y0 ! k = data av0 ! k)
     \<and> Attention_init (\<lambda>n k. 1) 64 8 False 0 0 (Some 3) = Inr a3
     \<and> attention_weights a3 False (\<lambda>k. 0) (tab [1, 16, 64] real) = Inr (1, 16, 64, attn3, w3)
     \<and> matmul attn3 w3 = Inr av3
     \<and> attention_res a3 1 16 64 w3 (Some (tab [1, 8, 16, 8] real)) = Inr (Tens corr)
     \<and> shape corr = [1, 8, 16, 8]
     \<and> (\<forall>k<1024. data corr ! k = spec_correction a3 8 (tab [1, 8, 16, 8] real) w3 k)
     \<and> attention_pre_proj a3 False (\<lambda>k. 0) (tab [1, 16, 64] real) (Some (tab [1, 8, 16, 8] real))
           = Inr (y3, w3)
     \<and> (\<forall>k<1024. data y3 ! k = data av3 ! k + data corr ! k)"
proof -
  obtain a0 where a0: "Attention_init (\<lambda>n k. 1) 64 8 False 0 0 (Some 0) = Inr a0"
    by (simp add: Attention_init_cases)
  obtain a3 where a3: "Attention_init (\<lambda>n k. 1) 64 8 False 0 0 (Some 3) = Inr a3"
    by (simp add: Attention_init_cases)
  have sh: "shape (tab [1, 16, 64] real) = [1, 16, nat 64]" by simp
  have p: "prod_list (shape (tab [1, 8, 16, 8] real)) = 1 * 16 * nat 64" by simp
  have n: "(0::nat) < 16" by simp
  have l: "(0::int) < 3" by simp
  from attention_pre_proj_correction [OF a0 sh, of False "\<lambda>k. 0"]
  obtain attn0 w0 av0 where z:
      "attention_weights a0 False (\<lambda>k. 0) (tab [1, 16, 64] real) = Inr (1, 16, nat 64, attn0, w0)"
      "matmul attn0 w0 = Inr av0"
      "\<forall>v0. attention_res a0 1 16 (nat 64) w0 v0 = Inr (PyNum 0)
             \<and> (\<exists>y. attention_pre_proj a0 False (\<lambda>k. 0) (tab [1, 16, 64] real) v0 = Inr (y, w0)
                   \<and> shape y = [1, nat 8, 16, nat (64 div 8)]
                   \<and> (\<forall>k < 1 * nat 8 * 16 * nat (64 div 8). data y ! k = data av0 ! k))"
    by blast
  from z(3) [rule_format, of None]
  obtain y0 where y0: "attention_res a0 1 16 (nat 64) w0 None = Inr (PyNum 0)"
      "attention_pre_proj a0 False (\<lambda>k. 0) (tab [1, 16, 64] real) None = Inr (y0, w0)"
      "\<forall>k < 1 * nat 8 * 16 * nat (64 div 8). data y0 ! k = data av0 ! k"
    by blast
  from attention_pre_proj_correction [OF a3 sh, of False "\<lambda>k. 0"] l
  obtain attn3 w3 av3 where t:
      "attention_weights a3 False (\<lambda>k. 0) (tab [1, 16, 64] real) = Inr (1, 16, nat 64, attn3, w3)"
      "matmul attn3 w3 = Inr av3"
      "\<forall>v0. 0 < (16::nat) \<longrightarrow> prod_list (shape v0) = 1 * 16 * nat 64 \<longrightarrow>
               (\<exists>corr y.
                   attention_res a3 1 16 (nat 64) w3 (Some v0) = Inr (Tens corr)
                 \<and> shape corr = [1, nat 8, 16, nat (64 div 8)]
                 \<and> (\<forall>k < 1 * nat 8 * 16 * nat (64 div 8).
                       data corr ! k = spec_correction a3 (nat (64 div 8)) v0 w3 k)
                 \<and> attention_pre_proj a3 False (\<lambda>k. 0) (tab [1, 16, 64] real) (Some v0) = Inr (y, w3)
                 \<and> shape y = [1, nat 8, 16, nat (64 div 8)]
                 \<and> (\<forall>k < 1 * nat 8 * 16 * nat (64 div 8).
                       data y ! k = data av3 ! k + data corr ! k))"
    by blast
  from t(3) [rule_format, OF n p]
  obtain corr y3 where c:
      "attention_res a3 1 16 (nat 64) w3 (Some (tab [1, 8, 16, 8] real)) = Inr (Tens corr)"
      "shape corr = [1, nat 8, 16, nat (64 div 8)]"
      "\<forall>k < 1 * nat 8 * 16 * nat (64 div 8).
          data corr ! k = spec_correction a3 (nat (64 div 8)) (tab [1, 8, 16, 8] real) w3 k"
      "attention_pre_proj a3 False (\<lambda>k. 0) (tab [1, 16, 64] real) (Some (tab [1, 8, 16, 8] real))
          = Inr (y3, w3)"
      "\<forall>k < 1 * nat 8 * 16 * nat (64 div 8). data y3 ! k = data av3 ! k + data corr ! k"
    by blast
  have e: "nat 64 = 64" "nat 8 = 8" "nat (64 div 8) = 8" "1 * 8 * 16 * 8 = (1024::nat)"
    by simp_all
  show ?thesis
    using a0 a3 z(1,2) y0 t(1,2) c unfolding e by blast
qed

section \<open>The feedback rewrite after each block\<close>











section \<open>Construction of the attention module, the block and the model\<close>

lemma build_blocks_first_fails:
  "0 < n \<Longrightarrow> mk 0 = Inl e \<Longrightarrow> build_blocks mk [0..<n] = Inl e"
  by (simp add: upt_conv_Cons)

text \<open>
  C7 (amended). For a positive \<open>embed_dim\<close> and a positive \<open>num_heads\<close>, with the other
  constructor arguments valid (a non-negative depth and \<open>mlp_ratio\<close>, dropout
  probabilities in \<open>[0, 1]\<close>, a non-negative representation size, one of the four
  weight initialisation modes, and a positive number of classes in the two \<open>nlhb\<close>
  modes): when \<open>embed_dim % num_heads == 0\<close> the constructors of the attention module,
  of the block and of the model return, the attention module holding these values and
  the model \<open>depth\<close> blocks; when \<open>embed_dim % num_heads != 0\<close> the constructors of the
  attention module and of the block raise the assertion error of line 23, and so does
  the constructor of the model when it builds at least one block.
\<close>

theorem construction_divisible:
  assumes pos: "0 < cfg_embed_dim cfg" "0 < cfg_num_heads cfg"
      and depth: "0 \<le> cfg_depth cfg"
      and ratio: "0 \<le> cfg_mlp_ratio cfg"
      and drop: "0 \<le> cfg_drop_rate cfg" "cfg_drop_rate cfg \<le> 1"
      and adrop: "0 \<le> cfg_attn_drop_rate cfg" "cfg_attn_drop_rate cfg \<le> 1"
      and rep: "case cfg_representation_size cfg of None \<Rightarrow> True | Some r \<Rightarrow> 0 \<le> r"
      and mode: "cfg_weight_init cfg \<in> {''jax'', ''jax_nlhb'', ''nlhb'', []}"
      and nlhb: "cfg_weight_init cfg \<in> {''jax_nlhb'', ''nlhb''} \<longrightarrow> 0 < cfg_num_classes cfg"
  shows "(cfg_embed_dim cfg mod cfg_num_heads cfg = 0 \<longrightarrow>
            (\<exists>a. Attention_init ini (cfg_embed_dim cfg) (cfg_num_heads cfg) qb
                    (cfg_attn_drop_rate cfg) (cfg_drop_rate cfg) lth = Inr a
                 \<and> dim a = cfg_embed_dim cfg \<and> num_heads a = cfg_num_heads cfg
                 \<and> layerth a = lth)
          \<and> (\<exists>b. Block_init ini eps (cfg_embed_dim cfg) (cfg_num_heads cfg) (cfg_mlp_ratio cfg)
                    qb (cfg_drop_rate cfg) (cfg_attn_drop_rate cfg) dpp af lth = Inr b)
          \<and> (\<exists>m. VisionTransformer_init cfg vini bini = Inr m
                 \<and> length (blocks m) = nat (cfg_depth cfg)))
       \<and> (cfg_embed_dim cfg mod cfg_num_heads cfg \<noteq> 0 \<longrightarrow>
            Attention_init ini (cfg_embed_dim cfg) (cfg_num_heads cfg) qb
              (cfg_attn_drop_rate cfg) (cfg_drop_rate cfg) lth = Inl AssertionError
          \<and> Block_init ini eps (cfg_embed_dim cfg) (cfg_num_heads cfg) (cfg_mlp_ratio cfg)
              qb (cfg_drop_rate cfg) (cfg_attn_drop_rate cfg) dpp af lth = Inl AssertionError
          \<and> (0 < cfg_depth cfg \<longrightarrow>
                VisionTransformer_init cfg vini bini = Inl AssertionError))"
proof (intro conjI impI)
  let ?e = "cfg_embed_dim cfg" and ?h = "cfg_num_heads cfg"
  let ?mk = "\<lambda>i. Block_init (bini i) (1 / 10 ^ 6) ?e ?h (cfg_mlp_ratio cfg) (cfg_qkv_bias cfg)
                 (cfg_drop_rate cfg) (cfg_attn_drop_rate cfg)
                 (dpr (cfg_drop_path_rate cfg) (nat (cfg_depth cfg)) i) (cfg_act_layer cfg)
                 (Some (int i))"
  {
    assume d: "?e mod ?h = 0"
    show "\<exists>a. Attention_init ini ?e ?h qb (cfg_attn_drop_rate cfg) (cfg_drop_rate cfg) lth = Inr a
              \<and> dim a = ?e \<and> num_heads a = ?h \<and> layerth a = lth"
      using pos drop adrop d by (simp add: Attention_init_cases)
    show "\<exists>b. Block_init ini eps ?e ?h (cfg_mlp_ratio cfg) qb (cfg_drop_rate cfg)
                 (cfg_attn_drop_rate cfg) dpp af lth = Inr b"
      by (rule Block_init_ok [OF pos d ratio drop adrop])
    have "\<exists>b. ?mk i = Inr b" for i
      by (rule Block_init_ok [OF pos d ratio drop adrop])
    then obtain bs where bs: "build_blocks ?mk [0..<nat (cfg_depth cfg)] = Inr bs"
      using build_blocks_ok [of "[0..<nat (cfg_depth cfg)]" ?mk] by blast
    have "\<exists>m. VisionTransformer_init cfg vini bini = Inr m"
      using pos depth drop rep mode nlhb bs
      by (auto simp: VisionTransformer_init_def Let_def to_size_def new_Dropout_def
            new_LayerNorm_def new_head_def new_Linear_def split: option.splits)
    then obtain m where m: "VisionTransformer_init cfg vini bini = Inr m" by blast
    from VisionTransformer_init_Inr [OF m] have "length (blocks m) = nat (cfg_depth cfg)"
      by blast
    with m show "\<exists>m. VisionTransformer_init cfg vini bini = Inr m
                    \<and> length (blocks m) = nat (cfg_depth cfg)" by blast
  }
  {
    assume d: "?e mod ?h \<noteq> 0"
    show a: "Attention_init ini ?e ?h qb (cfg_attn_drop_rate cfg) (cfg_drop_rate cfg) lth
               = Inl AssertionError" for ini lth qb
      using pos d by (simp add: Attention_init_cases)
    show b: "Block_init ini eps ?e ?h (cfg_mlp_ratio cfg) qb (cfg_drop_rate cfg)
               (cfg_attn_drop_rate cfg) dpp af lth = Inl AssertionError" for ini eps dpp af lth qb
      using pos by (simp add: Block_init_def new_LayerNorm_def a)
    assume dp: "0 < cfg_depth cfg"
    have "build_blocks ?mk [0..<nat (cfg_depth cfg)] = Inl AssertionError"
      using dp by (intro build_blocks_first_fails b) simp
    then show "VisionTransformer_init cfg vini bini = Inl AssertionError"
      using pos depth drop
      by (simp add: VisionTransformer_init_def Let_def to_size_def new_Dropout_def)
  }
qed

theorem construction_divisible_witness:
  "(\<exists>a. Attention_init zero_init 768 12 True 0 0 (Some 3) = Inr a
        \<and> dim a = 768 \<and> num_heads a = 12 \<and> layerth a = Some 3)
   \<and> (\<exists>b. Block_init zero_init (1 / 10 ^ 6) 768 12 4 True 0 0 0 (\<lambda>v. max 0 v) (Some 3) = Inr b)
   \<and> (\<exists>m. VisionTransformer_init (demo_config 12) zero_init (\<lambda>i. zero_init) = Inr m
         \<and> length (blocks m) = 12)
   \<and> Attention_init zero_init 768 7 True 0 0 (Some 3) = Inl AssertionError
   \<and> Block_init zero_init (1 / 10 ^ 6) 768 7 4 True 0 0 0 (\<lambda>v. max 0 v) (Some 3)
       = Inl AssertionError
   \<and> VisionTransformer_init ((demo_config 12)\<lparr>cfg_num_heads := 7\<rparr>) zero_init (\<lambda>i. zero_init)
       = Inl AssertionError"
  using construction_divisible [of "demo_config 12" zero_init True "Some 3" "1 / 10 ^ 6" 0
          "\<lambda>v. max 0 v" zero_init "\<lambda>i. zero_init"]
        construction_divisible [of "(demo_config 12)\<lparr>cfg_num_heads := 7\<rparr>" zero_init True
          "Some 3" "1 / 10 ^ 6" 0 "\<lambda>v. max 0 v" zero_init "\<lambda>i. zero_init"]
  by (simp add: demo_config_def)

text \<open>
  The claim as stated fails for \<open>embed_dim = 0\<close>: \<open>0 % 8 == 0\<close>, and \<open>head_dim ** -0.5\<close>
  raises on the zero base, in the attention module and so in the block and the model.
\<close>

theorem Attention_init_zero_dim_fails:
  "(0::int) mod 8 = 0
   \<and> Attention_init (\<lambda>n k. 0) 0 8 False 0 0 (Some 0) = Inl ZeroDivisionError
   \<and> Block_init zero_init (1 / 10 ^ 6) 0 8 4 True 0 0 0 (\<lambda>v. max 0 v) (Some 0)
       = Inl ZeroDivisionError
   \<and> VisionTransformer_init ((demo_config 12)\<lparr>cfg_embed_dim := 0, cfg_num_heads := 8\<rparr>)
         zero_init (\<lambda>i. zero_init) = Inl ZeroDivisionError"
proof -
  have b: "Block_init ini (1 / 10 ^ 6) 0 8 4 True 0 0 dpp (\<lambda>v. max 0 v) lth = Inl ZeroDivisionError"
    for ini dpp lth
    by (simp add: Block_init_def new_LayerNorm_def Attention_init_cases)
  have "build_blocks
          (\<lambda>i. Block_init zero_init (1 / 10 ^ 6) 0 8 4 True 0 0 (dpr 0 12 i) (\<lambda>v. max 0 v)
                  (Some (int i))) [0..<12] = Inl ZeroDivisionError"
    by (rule build_blocks_first_fails) (simp, rule b)
  then have "VisionTransformer_init ((demo_config 12)\<lparr>cfg_embed_dim := 0, cfg_num_heads := 8\<rparr>)
               zero_init (\<lambda>i. zero_init) = Inl ZeroDivisionError"
    by (simp add: VisionTransformer_init_def demo_config_def Let_def to_size_def new_Dropout_def)
  with b show ?thesis by (simp add: Attention_init_cases)
qed

end
